theory Spec2Isabelle
  imports Main "HOL-Library.Word" "HOL-Library.Multiset"
begin

unbundle bit_operations_syntax

section \<open>Common data: bytes, gRPC status codes, errors\<close>

type_synonym byte = "8 word"

text \<open>The canonical gRPC codes of \<^verbatim>\<open>google.golang.org/grpc/codes\<close>.\<close>

datatype codes =
    OK | Canceled | Unknown | InvalidArgument | DeadlineExceeded | NotFound
  | AlreadyExists | PermissionDenied | ResourceExhausted | FailedPrecondition
  | Aborted | OutOfRange | Unimplemented | Internal | Unavailable | DataLoss
  | Unauthenticated

text \<open>
  Go errors as values. \<^verbatim>\<open>status.Error(c, msg)\<close> is \<open>status_error c msg []\<close>;
  \<^verbatim>\<open>status.Errorf(c, format, args...)\<close> and \<^verbatim>\<open>fmt.Errorf(format, args...)\<close> keep the
  format string of the source and the list of its arguments (the rendering done by
  package fmt is not modelled). \<open>other_error\<close> stands for an error produced
  outside this repository (transport, Redis client, HTTP client, context).
\<close>

datatype fmt_arg = ArgInt int | ArgStr string | ArgRune char

datatype go_error =
    io_EOF
  | context_Canceled
  | context_DeadlineExceeded
  | status_error codes string "fmt_arg list"
  | fmt_error string "fmt_arg list"
  | other_error string

fun status_Code :: "go_error \<Rightarrow> codes" where
  "status_Code (status_error c m as) = c"
| "status_Code e = Unknown"

text \<open>
  \<^verbatim>\<open>remoteexecution.Digest\<close>: the hash as a string of bytes and the size as an int64.
  No arithmetic of this development can leave the int64 range (sizes are only
  compared, and decremented by a byte count that was checked to be smaller), so the
  size is an \<open>int\<close>.
\<close>

record Digest =
  Hash :: string
  SizeBytes :: int

section \<open>Library interfaces used by the integrity adapter\<close>

text \<open>
  \<^verbatim>\<open>hash.Hash\<close>: a running hash is the function of its family together with the bytes
  written so far; \<^verbatim>\<open>Sum(nil)\<close> applies the function. \<^verbatim>\<open>util.DigestFormat\<close> is
  \<^verbatim>\<open>func() hash.Hash\<close>, here the function of the family.
\<close>

type_synonym DigestFormat = "byte list \<Rightarrow> byte list"

record hash_Hash =
  hash_fn :: DigestFormat
  hash_written :: "byte list"

definition hash_New :: "DigestFormat \<Rightarrow> hash_Hash" where
  "hash_New f = \<lparr>hash_fn = f, hash_written = []\<rparr>"

definition hash_Write :: "hash_Hash \<Rightarrow> byte list \<Rightarrow> hash_Hash" where
  "hash_Write h p = h\<lparr>hash_written := hash_written h @ p\<rparr>"

definition hash_Sum :: "hash_Hash \<Rightarrow> byte list" where
  "hash_Sum h = hash_fn h (hash_written h)"

text \<open>
  \<^verbatim>\<open>io.ReadCloser\<close>: an object is its state together with its two methods. \<open>rc_Read\<close>
  takes the length of the buffer \<^verbatim>\<open>p\<close> and returns the bytes \<^verbatim>\<open>p[:n]\<close> and the error.
\<close>

record 'r io_ReadCloser =
  rc_state :: 'r
  rc_Read :: "nat \<Rightarrow> 'r \<Rightarrow> (byte list \<times> go_error option) \<times> 'r"
  rc_Close :: "'r \<Rightarrow> go_error option \<times> 'r"

definition io_Read :: "'r io_ReadCloser \<Rightarrow> nat \<Rightarrow> (byte list \<times> go_error option) \<times> 'r io_ReadCloser" where
  "io_Read rc plen = (let (res, st) = rc_Read rc plen (rc_state rc) in (res, rc\<lparr>rc_state := st\<rparr>))"

definition io_Close :: "'r io_ReadCloser \<Rightarrow> go_error option \<times> 'r io_ReadCloser" where
  "io_Close rc = (let (err, st) = rc_Close rc (rc_state rc) in (err, rc\<lparr>rc_state := st\<rparr>))"

text \<open>Successive calls of \<^verbatim>\<open>Read\<close> with buffers of the given lengths.\<close>

fun io_Reads :: "'r io_ReadCloser \<Rightarrow> nat list \<Rightarrow> (byte list \<times> go_error option) list \<times> 'r io_ReadCloser" where
  "io_Reads rc [] = ([], rc)"
| "io_Reads rc (p # ps) =
     (let (res, rc1) = io_Read rc p; (rs, rc2) = io_Reads rc1 ps in (res # rs, rc2))"

text \<open>
  \<^verbatim>\<open>io.TeeReader(r, w).Read(p)\<close>: reads from \<^verbatim>\<open>r\<close> and, when \<^verbatim>\<open>n > 0\<close>, writes \<^verbatim>\<open>p[:n]\<close>
  to \<^verbatim>\<open>w\<close>; writing to a hash never fails.
\<close>

definition TeeReader_Read ::
  "'r io_ReadCloser \<Rightarrow> hash_Hash \<Rightarrow> nat \<Rightarrow> (byte list \<times> go_error option) \<times> 'r io_ReadCloser \<times> hash_Hash" where
  "TeeReader_Read rc h plen =
     (let ((data, err), rc1) = io_Read rc plen
      in ((data, err), rc1, if length data > 0 then hash_Write h data else h))"

text \<open>\<^verbatim>\<open>hex.EncodeToString\<close> and \<^verbatim>\<open>hex.DecodeString\<close> of encoding/hex.\<close>

definition hextable :: string where
  "hextable = ''0123456789abcdef''"

fun hex_EncodeToString :: "byte list \<Rightarrow> string" where
  "hex_EncodeToString [] = []"
| "hex_EncodeToString (v # src) =
     hextable ! unat (drop_bit 4 v) # hextable ! unat (v AND 15) # hex_EncodeToString src"

definition fromHexChar :: "char \<Rightarrow> byte option" where
  "fromHexChar c =
     (let n = (of_char c :: nat) in
      if 48 \<le> n \<and> n \<le> 57 then Some (of_nat (n - 48))
      else if 97 \<le> n \<and> n \<le> 102 then Some (of_nat (n - 97 + 10))
      else if 65 \<le> n \<and> n \<le> 70 then Some (of_nat (n - 65 + 10))
      else None)"

text \<open>
  \<^verbatim>\<open>DecodeString\<close> returns the bytes decoded before the error together with the error;
  the adapter discards the error (\<^verbatim>\<open>checksum, _ := hex.DecodeString(digest.Hash)\<close>).
\<close>

fun hex_DecodeString :: "string \<Rightarrow> byte list \<times> go_error option" where
  "hex_DecodeString [] = ([], None)"
| "hex_DecodeString [a] =
     (case fromHexChar a of
        None \<Rightarrow> ([], Some (other_error ''encoding/hex: invalid byte''))
      | Some _ \<Rightarrow> ([], Some (other_error ''encoding/hex: odd length hex string'')))"
| "hex_DecodeString (a # b # s) =
     (case fromHexChar a of
        None \<Rightarrow> ([], Some (other_error ''encoding/hex: invalid byte''))
      | Some x \<Rightarrow>
          (case fromHexChar b of
             None \<Rightarrow> ([], Some (other_error ''encoding/hex: invalid byte''))
           | Some y \<Rightarrow>
               (let (bs, err) = hex_DecodeString s in ((push_bit 4 x OR y) # bs, err))))"

section \<open>The integrity adapter: the verifying reader (merkle_blob_access.go)\<close>

text \<open>
  \<^verbatim>\<open>checksumValidatingReader\<close>. The invalidator is a \<^verbatim>\<open>func()\<close> with side effects; the
  part of the world it can change is the type \<open>'w\<close>, and the closure is a function
  on it.
\<close>

record ('w, 'r) checksumValidatingReader =
  ReadCloser :: "'r io_ReadCloser"
  expectedChecksum :: "byte list"
  partialChecksum :: hash_Hash
  sizeLeft :: int
  invalidator :: "'w \<Rightarrow> 'w"
  errorCode :: codes

text \<open>
  \<^verbatim>\<open>checksumValidatingReader.Read\<close>. The result is the pair of \<^verbatim>\<open>p[:n]\<close> and the error,
  the reader as the call leaves it, and the world after the invalidator (if called).
\<close>

definition checksumValidatingReader_Read ::
  "('w, 'r) checksumValidatingReader \<Rightarrow> nat \<Rightarrow> 'w \<Rightarrow>
     (byte list \<times> go_error option) \<times> ('w, 'r) checksumValidatingReader \<times> 'w" where
  "checksumValidatingReader_Read r plen w =
     (let ((data, err), rc1, h1) = TeeReader_Read (ReadCloser r) (partialChecksum r) plen;
          r1 = r\<lparr>ReadCloser := rc1, partialChecksum := h1\<rparr>;
          nLen = int (length data)
      in if nLen > sizeLeft r1 then
           (([], Some (status_error (errorCode r1) ''Blob is longer than expected'' [])),
            r1, invalidator r1 w)
         else
           (let r2 = r1\<lparr>sizeLeft := sizeLeft r1 - nLen\<rparr> in
            if err = Some io_EOF then
              if sizeLeft r2 \<noteq> 0 then
                (([], Some (status_error (errorCode r2)
                        ''Blob is %d bytes shorter than expected'' [ArgInt (sizeLeft r2)])),
                 r2, invalidator r2 w)
              else
                (let actualChecksum = hash_Sum (partialChecksum r2) in
                 if actualChecksum \<noteq> expectedChecksum r2 then
                   (([], Some (status_error (errorCode r2)
                           ''Checksum of blob is %s, while %s was expected''
                           [ArgStr (hex_EncodeToString actualChecksum),
                            ArgStr (hex_EncodeToString (expectedChecksum r2))])),
                    r2, invalidator r2 w)
                 else ((data, err), r2, w))
            else ((data, err), r2, w)))"

text \<open>Successive calls of the verifying reader's \<^verbatim>\<open>Read\<close>.\<close>

fun checksumValidatingReader_Reads ::
  "('w, 'r) checksumValidatingReader \<Rightarrow> nat list \<Rightarrow> 'w \<Rightarrow>
     (byte list \<times> go_error option) list \<times> ('w, 'r) checksumValidatingReader \<times> 'w" where
  "checksumValidatingReader_Reads r [] w = ([], r, w)"
| "checksumValidatingReader_Reads r (p # ps) w =
     (let (res, r1, w1) = checksumValidatingReader_Read r p w;
          (rs, r2, w2) = checksumValidatingReader_Reads r1 ps w1
      in (res # rs, r2, w2))"

text \<open>
  A reader over a byte slice, as \<^verbatim>\<open>bytes.Reader\<close>, with a flag that records \<^verbatim>\<open>Close\<close>:
  used to run the adapter on concrete input.
\<close>

definition bytes_Reader_Read ::
  "nat \<Rightarrow> byte list \<times> bool \<Rightarrow> (byte list \<times> go_error option) \<times> (byte list \<times> bool)" where
  "bytes_Reader_Read plen st =
     (if fst st = [] then (([], Some io_EOF), st)
      else ((take plen (fst st), None), (drop plen (fst st), snd st)))"

definition bytes_Reader_Close :: "byte list \<times> bool \<Rightarrow> go_error option \<times> (byte list \<times> bool)" where
  "bytes_Reader_Close st = (None, (fst st, True))"

definition bytes_NewReader :: "byte list \<Rightarrow> (byte list \<times> bool) io_ReadCloser" where
  "bytes_NewReader s =
     \<lparr>rc_state = (s, False), rc_Read = bytes_Reader_Read, rc_Close = bytes_Reader_Close\<rparr>"

text \<open>A toy hash family (the sum of the bytes) and a verifying reader over a byte slice,
  to run the adapter on concrete input.\<close>

definition sum_hash :: DigestFormat where
  "sum_hash bs = [sum_list bs]"

definition example_reader :: "byte list \<Rightarrow> byte list \<Rightarrow> int \<Rightarrow> (nat, byte list \<times> bool) checksumValidatingReader" where
  "example_reader content expected n =
     \<lparr>ReadCloser = bytes_NewReader content, expectedChecksum = expected,
      partialChecksum = hash_New sum_hash, sizeLeft = n, invalidator = Suc,
      errorCode = Internal\<rparr>"

section \<open>The integrity adapter: digest validation and the four operations\<close>

text \<open>
  \<^verbatim>\<open>validateDigest\<close>. \<^verbatim>\<open>util.DigestFormatFromLength\<close> is not among the sources; it is the
  parameter \<open>dff\<close>, from the length of the hash to an error or the hash family.

  The loop \<^verbatim>\<open>for _, c := range digest.Hash\<close> runs over the runes of the string. A byte
  below 0x80 is its own rune, and a byte from 0x80 starts a rune that is at least 0x80
  (U+FFFD when the encoding is invalid), which the test rejects at once; so the first
  rejected rune starts at the first byte outside \<^verbatim>\<open>[0-9a-f]\<close>, and the loop over the bytes
  accepts the same strings. The rune in the message is represented by that byte.
\<close>

definition lower_hex :: "char \<Rightarrow> bool" where
  "lower_hex c = (c \<in> set ''0123456789abcdef'')"

type_synonym DigestFormatFromLength = "nat \<Rightarrow> go_error + DigestFormat"

fun validateDigest_chars :: "string \<Rightarrow> go_error option" where
  "validateDigest_chars [] = None"
| "validateDigest_chars (c # cs) =
     (if ((of_char c :: nat) < 48 \<or> (of_char c :: nat) > 57) \<and>
         ((of_char c :: nat) < 97 \<or> (of_char c :: nat) > 102)
      then Some (status_error InvalidArgument
                   ''Non-hexadecimal character in digest hash: %#U'' [ArgRune c])
      else validateDigest_chars cs)"

definition validateDigest :: "DigestFormatFromLength \<Rightarrow> Digest \<Rightarrow> go_error + DigestFormat" where
  "validateDigest dff digest =
     (case dff (length (Hash digest)) of
        Inl err \<Rightarrow> Inl err
      | Inr digestFormat \<Rightarrow>
          (case validateDigest_chars (Hash digest) of
             Some err \<Rightarrow> Inl err
           | None \<Rightarrow>
               if SizeBytes digest < 0
               then Inl (status_error InvalidArgument ''Invalid digest size: %d bytes''
                           [ArgInt (SizeBytes digest)])
               else Inr digestFormat))"

text \<open>
  A read finds the stream corrupted when the underlying reader delivers more bytes than
  are left, or ends (\<^verbatim>\<open>io.EOF\<close>) with bytes still missing or with a hash other than the
  expected one.
\<close>

definition size_or_hash_mismatch ::
  "('w, 'r) checksumValidatingReader \<Rightarrow> byte list \<Rightarrow> go_error option \<Rightarrow> bool" where
  "size_or_hash_mismatch r data err =
     (sizeLeft r < int (length data) \<or>
      err = Some io_EOF \<and>
        (int (length data) < sizeLeft r \<or>
         hash_fn (partialChecksum r) (hash_written (partialChecksum r) @ data) \<noteq> expectedChecksum r))"

text \<open>
  The wrapped store. Its state, together with everything else its methods can change,
  is the world \<open>'w\<close>; the methods pass it explicitly. \<^verbatim>\<open>Put\<close> receives the verifying
  reader and reads it with \<open>checksumValidatingReader_Read\<close>, and returns it as it
  leaves it.
\<close>

record ('w, 'r) BlobAccess =
  ba_Get :: "string \<Rightarrow> Digest \<Rightarrow> 'w \<Rightarrow> 'r io_ReadCloser \<times> 'w"
  ba_Put :: "string \<Rightarrow> Digest \<Rightarrow> int \<Rightarrow> ('w, 'r) checksumValidatingReader \<Rightarrow> 'w \<Rightarrow>
               (go_error option \<times> ('w, 'r) checksumValidatingReader) \<times> 'w"
  ba_Delete :: "string \<Rightarrow> Digest \<Rightarrow> 'w \<Rightarrow> go_error option \<times> 'w"
  ba_FindMissing :: "string \<Rightarrow> Digest list \<Rightarrow> 'w \<Rightarrow> (Digest list \<times> go_error option) \<times> 'w"

text \<open>What \<^verbatim>\<open>log.Printf\<close> wrote: the format string and its arguments.\<close>

datatype log_arg = LogDigest Digest | LogError go_error

type_synonym log = "(string \<times> log_arg list) list"

text \<open>
  The invalidator of \<^verbatim>\<open>Get\<close>: the closure over \<^verbatim>\<open>ba.blobAccess\<close>, \<^verbatim>\<open>instance\<close> and
  \<^verbatim>\<open>digest\<close>. Its world is the wrapped store's world and the log.
\<close>

definition Get_invalidator ::
  "('w, 'r) BlobAccess \<Rightarrow> string \<Rightarrow> Digest \<Rightarrow> 'w \<times> log \<Rightarrow> 'w \<times> log" where
  "Get_invalidator blobAccess instance digest =
     (\<lambda>(s, lg).
        case ba_Delete blobAccess instance digest s of
          (None, s1) \<Rightarrow> (s1, lg @ [(''Successfully deleted corrupted blob %s'', [LogDigest digest])])
        | (Some err, s1) \<Rightarrow>
            (s1, lg @ [(''Failed to delete corrupted blob %s: %s'', [LogDigest digest, LogError err])]))"

text \<open>
  \<^verbatim>\<open>merkleBlobAccess.Get\<close> returns either \<^verbatim>\<open>util.NewErrorReader(err)\<close>, a reader whose
  reads fail with \<^verbatim>\<open>err\<close>, or the verifying reader. The second test of \<^verbatim>\<open>err\<close>
  (before \<^verbatim>\<open>log.Fatal\<close>) reads the variable that was just found to be nil, so it never
  fires; the error of \<^verbatim>\<open>hex.DecodeString\<close> is discarded.
\<close>

datatype ('w, 'r) merkle_reader =
    ErrorReader go_error
  | ValidatingReader "('w, 'r) checksumValidatingReader"

text \<open>The struct literal of \<^verbatim>\<open>Get\<close>, given the reader that the wrapped \<^verbatim>\<open>Get\<close> returned.\<close>

definition Get_checksumValidatingReader ::
  "('w, 'r) BlobAccess \<Rightarrow> string \<Rightarrow> Digest \<Rightarrow> DigestFormat \<Rightarrow> 'r io_ReadCloser \<Rightarrow>
     ('w \<times> log, 'r) checksumValidatingReader" where
  "Get_checksumValidatingReader blobAccess instance digest digestFormat rc =
     \<lparr>ReadCloser = rc,
      expectedChecksum = fst (hex_DecodeString (Hash digest)),
      partialChecksum = hash_New digestFormat,
      sizeLeft = SizeBytes digest,
      invalidator = Get_invalidator blobAccess instance digest,
      errorCode = Internal\<rparr>"

definition merkleBlobAccess_Get ::
  "DigestFormatFromLength \<Rightarrow> ('w, 'r) BlobAccess \<Rightarrow> string \<Rightarrow> Digest \<Rightarrow> 'w \<Rightarrow>
     ('w \<times> log, 'r) merkle_reader \<times> 'w" where
  "merkleBlobAccess_Get dff blobAccess instance digest s =
     (case validateDigest dff digest of
        Inl err \<Rightarrow> (ErrorReader err, s)
      | Inr digestFormat \<Rightarrow>
          (let (rc, s1) = ba_Get blobAccess instance digest s
           in (ValidatingReader
                 (Get_checksumValidatingReader blobAccess instance digest digestFormat rc), s1)))"

text \<open>\<^verbatim>\<open>log.Fatal\<close> ends the process; a call either does that or returns.\<close>

datatype 'a outcome = Fatal string | Returns 'a

text \<open>
  \<^verbatim>\<open>merkleBlobAccess.Put\<close>. The result holds the error, the supplied reader as the call
  leaves it, and the world.
\<close>

definition Put_checksumValidatingReader ::
  "Digest \<Rightarrow> DigestFormat \<Rightarrow> 'r io_ReadCloser \<Rightarrow> ('w, 'r) checksumValidatingReader" where
  "Put_checksumValidatingReader digest digestFormat r =
     \<lparr>ReadCloser = r,
      expectedChecksum = fst (hex_DecodeString (Hash digest)),
      partialChecksum = hash_New digestFormat,
      sizeLeft = SizeBytes digest,
      invalidator = (\<lambda>w. w),
      errorCode = InvalidArgument\<rparr>"

definition merkleBlobAccess_Put ::
  "DigestFormatFromLength \<Rightarrow> ('w, 'r) BlobAccess \<Rightarrow> string \<Rightarrow> Digest \<Rightarrow> int \<Rightarrow>
     'r io_ReadCloser \<Rightarrow> 'w \<Rightarrow> ((go_error option \<times> 'r io_ReadCloser) \<times> 'w) outcome" where
  "merkleBlobAccess_Put dff blobAccess instance digest sizeBytes r s =
     (case validateDigest dff digest of
        Inl err \<Rightarrow> Returns ((Some err, snd (io_Close r)), s)
      | Inr digestFormat \<Rightarrow>
          if SizeBytes digest \<noteq> sizeBytes
          then Fatal ''Called into CAS to store non-CAS object''
          else
            (let ((err, r1), s1) =
                   ba_Put blobAccess instance digest (SizeBytes digest)
                     (Put_checksumValidatingReader digest digestFormat r) s
             in Returns ((err, ReadCloser r1), s1)))"

definition merkleBlobAccess_Delete ::
  "DigestFormatFromLength \<Rightarrow> ('w, 'r) BlobAccess \<Rightarrow> string \<Rightarrow> Digest \<Rightarrow> 'w \<Rightarrow> go_error option \<times> 'w" where
  "merkleBlobAccess_Delete dff blobAccess instance digest s =
     (case validateDigest dff digest of
        Inl err \<Rightarrow> (Some err, s)
      | Inr _ \<Rightarrow> ba_Delete blobAccess instance digest s)"

fun FindMissing_validate :: "DigestFormatFromLength \<Rightarrow> Digest list \<Rightarrow> go_error option" where
  "FindMissing_validate dff [] = None"
| "FindMissing_validate dff (digest # digests) =
     (case validateDigest dff digest of
        Inl err \<Rightarrow> Some err
      | Inr _ \<Rightarrow> FindMissing_validate dff digests)"

definition merkleBlobAccess_FindMissing ::
  "DigestFormatFromLength \<Rightarrow> ('w, 'r) BlobAccess \<Rightarrow> string \<Rightarrow> Digest list \<Rightarrow> 'w \<Rightarrow>
     (Digest list \<times> go_error option) \<times> 'w" where
  "merkleBlobAccess_FindMissing dff blobAccess instance digests s =
     (case FindMissing_validate dff digests of
        Some err \<Rightarrow> (([], Some err), s)
      | None \<Rightarrow> ba_FindMissing blobAccess instance digests s)"

text \<open>
  A wrapped store for concrete runs: a map from hash to content, and the list of the
  digests it was asked to delete. Its \<^verbatim>\<open>Put\<close> takes blobs of up to 4 bytes: it reads
  twice with a buffer of 4 bytes and stores what it read when the reader ends with
  \<^verbatim>\<open>io.EOF\<close>. Hashes of this store have two characters (the toy family).
\<close>

record example_store =
  blobs :: "string \<rightharpoonup> byte list"
  deleted :: "Digest list"

definition example_dff :: DigestFormatFromLength where
  "example_dff n =
     (if n = 2 then Inr sum_hash
      else Inl (status_error InvalidArgument ''Unknown digest hash length: %d characters''
                  [ArgInt (int n)]))"

definition example_Delete :: "string \<Rightarrow> Digest \<Rightarrow> example_store \<Rightarrow> go_error option \<times> example_store" where
  "example_Delete instance digest s =
     (None, s\<lparr>blobs := (blobs s)(Hash digest := None), deleted := deleted s @ [digest]\<rparr>)"

definition example_Get ::
  "string \<Rightarrow> Digest \<Rightarrow> example_store \<Rightarrow> (byte list \<times> bool) io_ReadCloser \<times> example_store" where
  "example_Get instance digest s =
     (case blobs s (Hash digest) of
        None \<Rightarrow> (bytes_NewReader [], s)
      | Some content \<Rightarrow> (bytes_NewReader content, s))"

definition example_Put ::
  "string \<Rightarrow> Digest \<Rightarrow> int \<Rightarrow> (example_store, byte list \<times> bool) checksumValidatingReader \<Rightarrow> example_store \<Rightarrow>
     (go_error option \<times> (example_store, byte list \<times> bool) checksumValidatingReader) \<times> example_store" where
  "example_Put instance digest sizeBytes r s =
     (let ((d1, e1), r1, s1) = checksumValidatingReader_Read r 4 s in
      case e1 of
        Some err \<Rightarrow>
          if err = io_EOF then ((None, r1), s1\<lparr>blobs := (blobs s1)(Hash digest \<mapsto> d1)\<rparr>)
          else ((Some err, r1), s1)
      | None \<Rightarrow>
          (let ((d2, e2), r2, s2) = checksumValidatingReader_Read r1 4 s1 in
           case e2 of
             Some err \<Rightarrow>
               if err = io_EOF then ((None, r2), s2\<lparr>blobs := (blobs s2)(Hash digest \<mapsto> d1 @ d2)\<rparr>)
               else ((Some err, r2), s2)
           | None \<Rightarrow> ((Some (other_error ''blob too large''), r2), s2)))"

definition example_FindMissing ::
  "string \<Rightarrow> Digest list \<Rightarrow> example_store \<Rightarrow> (Digest list \<times> go_error option) \<times> example_store" where
  "example_FindMissing instance digests s =
     ((filter (\<lambda>d. blobs s (Hash d) = None) digests, None), s)"

definition example_BlobAccess :: "(example_store, byte list \<times> bool) BlobAccess" where
  "example_BlobAccess =
     \<lparr>ba_Get = example_Get, ba_Put = example_Put, ba_Delete = example_Delete,
      ba_FindMissing = example_FindMissing\<rparr>"

definition example_store0 :: example_store where
  "example_store0 = \<lparr>blobs = Map.empty, deleted = []\<rparr>"

text \<open>A digest whose hash says that the bytes sum to 6, and a store that holds
  other bytes under it.\<close>

definition example_digest :: Digest where
  "example_digest = \<lparr>Hash = ''06'', SizeBytes = 3\<rparr>"

definition example_store1 :: example_store where
  "example_store1 = \<lparr>blobs = [''06'' \<mapsto> [1, 2, 4]], deleted = []\<rparr>"

section \<open>The sharding adapter (sharding/sharding_blob_access.go)\<close>

text \<open>
  \<^verbatim>\<open>util.Digest\<close> and its method \<^verbatim>\<open>GetKey\<close> are not among the sources: the digest is a
  type variable \<open>'d\<close> and \<open>GetKey\<close> a parameter. The loop
  \<^verbatim>\<open>for _, c := range digest.GetKey(...)\<close> runs over the runes of the key, so the parameter
  gives the key as that sequence of runes (for a key of ASCII characters, its bytes).
  A rune is an int32, and \<^verbatim>\<open>uint64(c)\<close> extends its sign.
\<close>

type_synonym rune = "32 word"

type_synonym uint64 = "64 word"

text \<open>The hash loop of \<^verbatim>\<open>getBackend\<close>: FNV-1a, started from \<^verbatim>\<open>ba.hashInitialization\<close>.\<close>

fun getBackend_hash :: "uint64 \<Rightarrow> rune list \<Rightarrow> uint64" where
  "getBackend_hash h [] = h"
| "getBackend_hash h (c # cs) = getBackend_hash ((h XOR scast c) * 1099511628211) cs"

text \<open>
  Modelled from the spec: the interface \<^verbatim>\<open>ShardSelector\<close> and its implementations are not
  among the sources. By the specification, \<^verbatim>\<open>GetShard\<close> "accepts the hash and a predicate
  isDrained(slot), and calls the predicate with candidate slot indices until it returns
  false", deterministically for a given hash. A selector is therefore the sequence of
  candidate slots it proposes for each hash, and \<open>GetShard\<close> walks that sequence.
  The predicate is a closure: it takes and returns the state of the variables it
  captured, and can panic (\<open>Inl\<close>). A walk that never finds a slot that is not drained
  does not return (\<open>None\<close>).
\<close>

type_synonym ShardSelector = "uint64 \<Rightarrow> nat \<Rightarrow> int"

partial_function (option) GetShard_from ::
  "(nat \<Rightarrow> int) \<Rightarrow> (int \<Rightarrow> 'a \<Rightarrow> string + bool \<times> 'a) \<Rightarrow> nat \<Rightarrow> 'a \<Rightarrow> (string + 'a) option" where
  "GetShard_from candidates selector i st =
     (case selector (candidates i) st of
        Inl p \<Rightarrow> Some (Inl p)
      | Inr (drained, st1) \<Rightarrow>
          if drained then GetShard_from candidates selector (Suc i) st1 else Some (Inr st1))"

definition GetShard ::
  "ShardSelector \<Rightarrow> uint64 \<Rightarrow> (int \<Rightarrow> 'a \<Rightarrow> string + bool \<times> 'a) \<Rightarrow> 'a \<Rightarrow> (string + 'a) option" where
  "GetShard shardSelector h selector st = GetShard_from (shardSelector h) selector 0 st"

text \<open>
  \<^verbatim>\<open>shardingBlobAccess\<close>. A back end is a value of \<open>'b\<close> (the identity of the object behind
  the interface); a nil entry of \<^verbatim>\<open>backends\<close>, a drained slot, is \<open>None\<close>.
\<close>

record ('b, 'f) shardingBlobAccess =
  backends :: "'b option list"
  shardSelector :: ShardSelector
  digestKeyFormat :: 'f
  hashInitialization :: uint64

text \<open>
  The closure passed to \<^verbatim>\<open>GetShard\<close>: it assigns \<^verbatim>\<open>ba.backends[index]\<close> to the captured
  variable \<^verbatim>\<open>backend\<close> and answers whether that is nil. Indexing outside the slice panics.
\<close>

definition getBackend_selector :: "'b option list \<Rightarrow> int \<Rightarrow> 'b option \<Rightarrow> string + bool \<times> 'b option" where
  "getBackend_selector bs index backend =
     (if 0 \<le> index \<and> index < int (length bs)
      then (let backend1 = bs ! nat index in Inr (backend1 = None, backend1))
      else Inl ''runtime error: index out of range'')"

text \<open>\<^verbatim>\<open>getBackend\<close>: \<open>None\<close> when it does not return, \<open>Some (Inl p)\<close> when it panics,
  \<open>Some (Inr backend)\<close> when it returns \<^verbatim>\<open>backend\<close>.\<close>

definition getBackend ::
  "('d \<Rightarrow> 'f \<Rightarrow> rune list) \<Rightarrow> ('b, 'f) shardingBlobAccess \<Rightarrow> 'd \<Rightarrow> (string + 'b option) option" where
  "getBackend GetKey ba digest =
     (let h = getBackend_hash (hashInitialization ba) (GetKey digest (digestKeyFormat ba))
      in GetShard (shardSelector ba) h (getBackend_selector (backends ba)) None)"











text \<open>
  Adapters for concrete runs. A digest is its key. The first has the shards
  [A live, B drained] and a selector that proposes slot 1 and then slot 0; the second
  has two live shards and a selector that starts from the parity of the hash. Back end
  A reports every digest it is asked about as missing, back end B fails.
\<close>

definition example_GetKey :: "string \<Rightarrow> unit \<Rightarrow> rune list" where
  "example_GetKey d f = map (\<lambda>c. of_nat (of_char c)) d"

definition example_sharding :: "(string, unit) shardingBlobAccess" where
  "example_sharding =
     \<lparr>backends = [Some ''A'', None],
      shardSelector = (\<lambda>h j. if j = 0 then 1 else 0),
      digestKeyFormat = (),
      hashInitialization = 14695981039346656037\<rparr>"



section \<open>The HTTP cache back end (remote_blob_access.go)\<close>

text \<open>
  The HTTP client is a parameter: it takes a request and the state of the network and
  the server, and returns a transport error or a response. \<^verbatim>\<open>http.StatusText\<close> and the
  error of \<^verbatim>\<open>http.NewRequest\<close> (which parses the URL) are parameters too.
\<close>

record 'r http_Request =
  Method :: string
  URL :: string
  RequestBody :: "'r io_ReadCloser option"
  ContentLength :: int

record 'r http_Response =
  StatusCode :: int
  Body :: "'r io_ReadCloser"

type_synonym ('r, 'h) http_Client = "'r http_Request \<Rightarrow> 'h \<Rightarrow> (go_error + 'r http_Response) \<times> 'h"

record remoteBlobAccess =
  address :: string
  prefix :: string

definition convertHTTPUnexpectedStatus :: "(int \<Rightarrow> string) \<Rightarrow> 'r http_Response \<Rightarrow> go_error" where
  "convertHTTPUnexpectedStatus StatusText resp =
     status_error Unknown ''Unexpected status code from remote cache: %d - %s''
       [ArgInt (StatusCode resp), ArgStr (StatusText (StatusCode resp))]"

text \<open>\<^verbatim>\<open>fmt.Sprintf("%s/%s/%s", ba.address, ba.prefix, digest.GetHash())\<close>.\<close>

definition remote_url :: "remoteBlobAccess \<Rightarrow> Digest \<Rightarrow> string" where
  "remote_url ba digest = address ba @ ''/'' @ prefix ba @ ''/'' @ Hash digest"

text \<open>
  \<^verbatim>\<open>remoteBlobAccess.Get\<close> returns \<^verbatim>\<open>&errorReader{err}\<close> (\<open>Inl err\<close>) or the body of the
  response. (The line it prints on a transport error is left out.)
\<close>

definition remoteBlobAccess_Get ::
  "('r, 'h) http_Client \<Rightarrow> (int \<Rightarrow> string) \<Rightarrow> remoteBlobAccess \<Rightarrow> string \<Rightarrow> Digest \<Rightarrow> 'h \<Rightarrow>
     (go_error + 'r io_ReadCloser) \<times> 'h" where
  "remoteBlobAccess_Get client StatusText ba instance digest h =
     (let url = remote_url ba digest in
      case client \<lparr>Method = ''GET'', URL = url, RequestBody = None, ContentLength = 0\<rparr> h of
        (Inl e, h1) \<Rightarrow> (Inl e, h1)
      | (Inr resp, h1) \<Rightarrow>
          if StatusCode resp = 404 then (Inl (status_error NotFound url []), h1)
          else if StatusCode resp = 200 then (Inr (Body resp), h1)
          else (Inl (convertHTTPUnexpectedStatus StatusText resp), h1))"

text \<open>\<^verbatim>\<open>remoteBlobAccess.Put\<close>. The result holds the error, the supplied reader (closed when the
  request could not be built; otherwise it is the client's to read) and the state.\<close>

definition remoteBlobAccess_Put ::
  "('r, 'h) http_Client \<Rightarrow> (string \<Rightarrow> go_error option) \<Rightarrow> remoteBlobAccess \<Rightarrow> string \<Rightarrow> Digest \<Rightarrow>
     int \<Rightarrow> 'r io_ReadCloser \<Rightarrow> 'h \<Rightarrow> (go_error option \<times> 'r io_ReadCloser) \<times> 'h" where
  "remoteBlobAccess_Put client NewRequest_error ba instance digest sizeBytes r h =
     (let url = remote_url ba digest in
      case NewRequest_error url of
        Some e \<Rightarrow> ((Some e, snd (io_Close r)), h)
      | None \<Rightarrow>
          (case client \<lparr>Method = ''PUT'', URL = url, RequestBody = Some r,
                        ContentLength = sizeBytes\<rparr> h of
             (Inl e, h1) \<Rightarrow> ((Some e, r), h1)
           | (Inr resp, h1) \<Rightarrow> ((None, r), h1)))"

definition remoteBlobAccess_Delete :: "remoteBlobAccess \<Rightarrow> string \<Rightarrow> Digest \<Rightarrow> go_error option" where
  "remoteBlobAccess_Delete ba instance digest =
     Some (status_error Unimplemented
             ''Bazel HTTP caching protocol does not support object deletion'' [])"

fun remoteBlobAccess_FindMissing_loop ::
  "('r, 'h) http_Client \<Rightarrow> (int \<Rightarrow> string) \<Rightarrow> remoteBlobAccess \<Rightarrow> Digest list \<Rightarrow> Digest list \<Rightarrow> 'h \<Rightarrow>
     (Digest list \<times> go_error option) \<times> 'h" where
  "remoteBlobAccess_FindMissing_loop client StatusText ba [] missing h = ((missing, None), h)"
| "remoteBlobAccess_FindMissing_loop client StatusText ba (digest # digests) missing h =
     (case client \<lparr>Method = ''HEAD'', URL = remote_url ba digest, RequestBody = None,
                   ContentLength = 0\<rparr> h of
        (Inl e, h1) \<Rightarrow> (([], Some e), h1)
      | (Inr resp, h1) \<Rightarrow>
          if StatusCode resp = 404
          then remoteBlobAccess_FindMissing_loop client StatusText ba digests (missing @ [digest]) h1
          else if StatusCode resp = 200
          then remoteBlobAccess_FindMissing_loop client StatusText ba digests missing h1
          else (([], Some (convertHTTPUnexpectedStatus StatusText resp)), h1))"

definition remoteBlobAccess_FindMissing ::
  "('r, 'h) http_Client \<Rightarrow> (int \<Rightarrow> string) \<Rightarrow> remoteBlobAccess \<Rightarrow> string \<Rightarrow> Digest list \<Rightarrow> 'h \<Rightarrow>
     (Digest list \<times> go_error option) \<times> 'h" where
  "remoteBlobAccess_FindMissing client StatusText ba instance digests h =
     remoteBlobAccess_FindMissing_loop client StatusText ba digests [] h"

text \<open>
  A server for concrete runs: it answers every request with the same status and an
  empty body, and records the requests it received (method and URL).
\<close>

definition example_http :: "int \<Rightarrow> (byte list \<times> bool, (string \<times> string) list) http_Client" where
  "example_http code req h =
     (Inr \<lparr>StatusCode = code, Body = bytes_NewReader []\<rparr>, h @ [(Method req, URL req)])"

definition example_StatusText :: "int \<Rightarrow> string" where
  "example_StatusText code =
     (if code = 500 then ''Internal Server Error'' else if code = 404 then ''Not Found''
      else if code = 200 then ''OK'' else [])"

definition example_remote :: remoteBlobAccess where
  "example_remote = \<lparr>address = ''http://cache'', prefix = ''cas''\<rparr>"

section \<open>The Redis store and the gRPC CAS relay: \<^verbatim>\<open>FindMissing\<close>\<close>

text \<open>
  The Redis client. Its state is the database, the commands that reached the server
  (one list for each pipeline executed) and the error, if any, with which the
  connection currently fails. \<^verbatim>\<open>ctx.Err()\<close> of the context of a call is the parameter
  \<open>ctx_Err\<close>; \<^verbatim>\<open>util.DigestKeyer\<close> is the parameter \<open>blobKeyer\<close>.
\<close>

datatype redis_cmd = EXISTS string | SET string "byte list"

record redis_Client =
  db :: "string \<rightharpoonup> byte list"
  executed :: "redis_cmd list list"
  failing :: "go_error option"

text \<open>\<^verbatim>\<open>pipeline.Exec()\<close>: the queued commands reach the server, or the connection's error
  is returned. The values are those of \<^verbatim>\<open>cmd.Val()\<close> for the \<^verbatim>\<open>EXISTS\<close> commands.\<close>

definition pipeline_Exec :: "string list \<Rightarrow> redis_Client \<Rightarrow> (go_error + int list) \<times> redis_Client" where
  "pipeline_Exec keys c =
     (case failing c of
        Some e \<Rightarrow> (Inl e, c)
      | None \<Rightarrow>
          (Inr (map (\<lambda>k. if db c k = None then 0 else 1) keys),
           c\<lparr>executed := executed c @ [map EXISTS keys]\<rparr>))"

text \<open>The first loop of \<^verbatim>\<open>redisBlobAccess.FindMissing\<close>: the keys of the commands queued.\<close>

fun redis_keys :: "(string \<Rightarrow> Digest \<Rightarrow> go_error + string) \<Rightarrow> string \<Rightarrow> Digest list \<Rightarrow> go_error + string list" where
  "redis_keys blobKeyer instance [] = Inr []"
| "redis_keys blobKeyer instance (digest # digests) =
     (case blobKeyer instance digest of
        Inl e \<Rightarrow> Inl e
      | Inr key \<Rightarrow>
          (case redis_keys blobKeyer instance digests of
             Inl e \<Rightarrow> Inl e
           | Inr keys \<Rightarrow> Inr (key # keys)))"

definition redisBlobAccess_FindMissing ::
  "(string \<Rightarrow> Digest \<Rightarrow> go_error + string) \<Rightarrow> go_error option \<Rightarrow> string \<Rightarrow> Digest list \<Rightarrow>
     redis_Client \<Rightarrow> (Digest list \<times> go_error option) \<times> redis_Client" where
  "redisBlobAccess_FindMissing blobKeyer ctx_Err instance digests c =
     (case ctx_Err of
        Some e \<Rightarrow> (([], Some e), c)
      | None \<Rightarrow>
          if length digests = 0 then (([], None), c)
          else
            (case redis_keys blobKeyer instance digests of
               Inl e \<Rightarrow> (([], Some e), c)
             | Inr keys \<Rightarrow>
                 (case pipeline_Exec keys c of
                    (Inl e, c1) \<Rightarrow> (([], Some e), c1)
                  | (Inr vals, c1) \<Rightarrow>
                      ((map fst (filter (\<lambda>(digest, v). v = 0) (zip digests vals)), None), c1))))"

text \<open>
  The relay (\<^verbatim>\<open>contentAddressableStorageBlobAccess\<close>). \<^verbatim>\<open>util.Digest\<close> is here a record of
  the instance and the raw digest (\<^verbatim>\<open>GetInstance\<close>, \<^verbatim>\<open>GetRawDigest\<close>); \<^verbatim>\<open>util.NewDigest\<close> and
  the remote service \<^verbatim>\<open>FindMissingBlobs\<close>, with the state \<open>'c\<close> of the connection and the
  server, are parameters.
\<close>

record util_Digest =
  GetInstance :: string
  GetRawDigest :: Digest

record FindMissingBlobsRequest =
  InstanceName :: string
  BlobDigests :: "Digest list"

fun cas_request_loop :: "string \<Rightarrow> util_Digest list \<Rightarrow> FindMissingBlobsRequest \<Rightarrow> go_error + FindMissingBlobsRequest" where
  "cas_request_loop instance [] request = Inr request"
| "cas_request_loop instance (digest # digests) request =
     (let request1 = request\<lparr>BlobDigests := BlobDigests request @ [GetRawDigest digest]\<rparr> in
      if GetInstance digest \<noteq> instance
      then Inl (status_error InvalidArgument ''Cannot use mixed instance names in a single request'' [])
      else cas_request_loop instance digests request1)"

fun cas_convert_loop ::
  "(string \<Rightarrow> Digest \<Rightarrow> go_error + util_Digest) \<Rightarrow> string \<Rightarrow> Digest list \<Rightarrow> util_Digest list \<Rightarrow>
     util_Digest list \<times> go_error option" where
  "cas_convert_loop NewDigest instance [] outDigests = (outDigests, None)"
| "cas_convert_loop NewDigest instance (rawDigest # raws) outDigests =
     (case NewDigest instance rawDigest of
        Inl e \<Rightarrow> ([], Some e)
      | Inr digest \<Rightarrow> cas_convert_loop NewDigest instance raws (outDigests @ [digest]))"

definition contentAddressableStorageBlobAccess_FindMissing ::
  "(FindMissingBlobsRequest \<Rightarrow> 'c \<Rightarrow> (go_error + Digest list) \<times> 'c) \<Rightarrow>
   (string \<Rightarrow> Digest \<Rightarrow> go_error + util_Digest) \<Rightarrow> util_Digest list \<Rightarrow> 'c \<Rightarrow>
     (util_Digest list \<times> go_error option) \<times> 'c" where
  "contentAddressableStorageBlobAccess_FindMissing FindMissingBlobs NewDigest digests c =
     (case digests of
        [] \<Rightarrow> (([], None), c)
      | digest0 # _ \<Rightarrow>
          (let instance = GetInstance digest0 in
           case cas_request_loop instance digests \<lparr>InstanceName = instance, BlobDigests = []\<rparr> of
             Inl e \<Rightarrow> (([], Some e), c)
           | Inr request \<Rightarrow>
               (case FindMissingBlobs request c of
                  (Inl e, c1) \<Rightarrow> (([], Some e), c1)
                | (Inr MissingBlobDigests, c1) \<Rightarrow>
                    (cas_convert_loop NewDigest instance MissingBlobDigests [], c1))))"

text \<open>A Redis client and a remote service for concrete runs; the service records the
  requests it serves.\<close>

definition example_redis :: redis_Client where
  "example_redis = \<lparr>db = [''06'' \<mapsto> [1, 2, 3]], executed = [], failing = None\<rparr>"

definition example_blobKeyer :: "string \<Rightarrow> Digest \<Rightarrow> go_error + string" where
  "example_blobKeyer instance digest = Inr (Hash digest)"

definition example_FindMissingBlobs ::
  "FindMissingBlobsRequest \<Rightarrow> FindMissingBlobsRequest list \<Rightarrow> (go_error + Digest list) \<times> FindMissingBlobsRequest list" where
  "example_FindMissingBlobs request served = (Inr (BlobDigests request), served @ [request])"

definition example_NewDigest :: "string \<Rightarrow> Digest \<Rightarrow> go_error + util_Digest" where
  "example_NewDigest instance rawDigest = Inr \<lparr>GetInstance = instance, GetRawDigest = rawDigest\<rparr>"

section \<open>The ByteStream service: resource names (unnamed/part_000)\<close>

text \<open>
  \<^verbatim>\<open>strings.FieldsFunc(s, f)\<close>: the maximal runs of characters that do not satisfy \<^verbatim>\<open>f\<close>.
  \<open>cur\<close> is the field being read (\<^verbatim>\<open>s[start:end]\<close>; empty when \<^verbatim>\<open>start < 0\<close>). The
  separator here is the ASCII character \<^verbatim>\<open>/\<close>, which is no part of the encoding of any
  other rune, so the loop over the bytes splits as the loop over the runes does.
\<close>

fun FieldsFunc_loop :: "(char \<Rightarrow> bool) \<Rightarrow> string \<Rightarrow> string \<Rightarrow> string list" where
  "FieldsFunc_loop f cur [] = (if cur = [] then [] else [cur])"
| "FieldsFunc_loop f cur (c # s) =
     (if f c then (if cur = [] then FieldsFunc_loop f [] s else cur # FieldsFunc_loop f [] s)
      else FieldsFunc_loop f (cur @ [c]) s)"

definition FieldsFunc :: "string \<Rightarrow> (char \<Rightarrow> bool) \<Rightarrow> string list" where
  "FieldsFunc s f = FieldsFunc_loop f [] s"

text \<open>
  \<^verbatim>\<open>strconv.ParseInt(s, 10, 64)\<close>, through \<^verbatim>\<open>strconv.ParseUint(s, 10, 64)\<close>. In base 10 every
  character that is not a digit is a syntax error (a letter is a digit value of 10 or
  more). The uint64 accumulator is a \<open>nat\<close>, with the two overflow tests of the
  source: \<^verbatim>\<open>n >= cutoff\<close> with cutoff \<^verbatim>\<open>maxUint64/10 + 1\<close>, and \<^verbatim>\<open>n1 < n || n1 > maxVal\<close>,
  which holds exactly when the sum does not fit 64 bits.
\<close>

datatype NumError = ErrSyntax | ErrRange

fun ParseUint_loop :: "nat \<Rightarrow> string \<Rightarrow> NumError + nat" where
  "ParseUint_loop n [] = Inr n"
| "ParseUint_loop n (c # cs) =
     (if 48 \<le> (of_char c :: nat) \<and> (of_char c :: nat) \<le> 57 then
        (let v = (of_char c :: nat) - 48 in
         if n \<ge> 1844674407370955162 then Inl ErrRange
         else (let n1 = n * 10 + v in
               if n1 \<ge> 2 ^ 64 then Inl ErrRange else ParseUint_loop n1 cs))
      else Inl ErrSyntax)"

definition ParseUint :: "string \<Rightarrow> NumError + nat" where
  "ParseUint s = (if s = [] then Inl ErrSyntax else ParseUint_loop 0 s)"

definition ParseInt :: "string \<Rightarrow> NumError + int" where
  "ParseInt s =
     (case s of
        [] \<Rightarrow> Inl ErrSyntax
      | c # cs \<Rightarrow>
          (let (neg, s1) = (if c = CHR ''+'' then (False, cs)
                            else if c = CHR ''-'' then (True, cs) else (False, s))
           in case ParseUint s1 of
                Inl e \<Rightarrow> Inl e
              | Inr un \<Rightarrow>
                  if \<not> neg \<and> un \<ge> 2 ^ 63 then Inl ErrRange
                  else if neg \<and> un > 2 ^ 63 then Inl ErrRange
                  else Inr (if neg then - int un else int un)))"

text \<open>
  \<^verbatim>\<open>parseResourceNameRead\<close> and \<^verbatim>\<open>parseResourceNameWrite\<close>; a nil digest is \<open>None\<close>.
\<close>

definition parseResourceNameRead :: "string \<Rightarrow> string \<times> Digest option" where
  "parseResourceNameRead resourceName =
     (let fields = FieldsFunc resourceName (\<lambda>r. r = CHR ''/'');
          l = length fields
      in if (l \<noteq> 3 \<and> l \<noteq> 4) \<or> fields ! (l - 3) \<noteq> ''blobs'' then ([], None)
         else
           (case ParseInt (fields ! (l - 1)) of
              Inl e \<Rightarrow> ([], None)
            | Inr n \<Rightarrow>
                (if l = 4 then fields ! 0 else [],
                 Some \<lparr>Hash = fields ! (l - 2), SizeBytes = n\<rparr>)))"

definition parseResourceNameWrite :: "string \<Rightarrow> string \<times> Digest option" where
  "parseResourceNameWrite resourceName =
     (let fields = FieldsFunc resourceName (\<lambda>r. r = CHR ''/'');
          l = length fields
      in if (l \<noteq> 5 \<and> l \<noteq> 6) \<or> fields ! (l - 5) \<noteq> ''uploads'' \<or> fields ! (l - 3) \<noteq> ''blobs''
         then ([], None)
         else
           (case ParseInt (fields ! (l - 1)) of
              Inl e \<Rightarrow> ([], None)
            | Inr n \<Rightarrow>
                (if l = 6 then fields ! 0 else [],
                 Some \<lparr>Hash = fields ! (l - 2), SizeBytes = n\<rparr>)))"

text \<open>
  The forms as the documentation writes them. The segments of a name are what stands
  between its slashes (\<^verbatim>\<open>strings.Split(s, "/")\<close>); a decimal integer is a string of
  digits, with or without a sign.
\<close>

fun segments_from :: "string \<Rightarrow> string \<Rightarrow> string list" where
  "segments_from cur [] = [cur]"
| "segments_from cur (c # s) =
     (if c = CHR ''/'' then cur # segments_from [] s else segments_from (cur @ [c]) s)"

definition segments :: "string \<Rightarrow> string list" where
  "segments s = segments_from [] s"

definition is_digit :: "char \<Rightarrow> bool" where
  "is_digit c = (c \<in> set ''0123456789'')"

definition sign_split :: "string \<Rightarrow> bool \<times> string" where
  "sign_split s =
     (case s of
        [] \<Rightarrow> (False, [])
      | c # cs \<Rightarrow> if c = CHR ''+'' then (False, cs) else if c = CHR ''-'' then (True, cs) else (False, s))"

definition decimal_integer :: "string \<Rightarrow> bool" where
  "decimal_integer s = (snd (sign_split s) \<noteq> [] \<and> list_all is_digit (snd (sign_split s)))"

definition digits_value :: "string \<Rightarrow> nat" where
  "digits_value ds = foldl (\<lambda>n c. n * 10 + ((of_char c :: nat) - 48)) 0 ds"

text \<open>The value of a string of digits read after the number \<open>n\<close>.\<close>

definition digits_from :: "nat \<Rightarrow> string \<Rightarrow> nat" where
  "digits_from n ds = foldl (\<lambda>n c. n * 10 + ((of_char c :: nat) - 48)) n ds"

definition decimal_value :: "string \<Rightarrow> int" where
  "decimal_value s =
     (if fst (sign_split s) then - int (digits_value (snd (sign_split s)))
      else int (digits_value (snd (sign_split s))))"

definition int64_decimal :: "string \<Rightarrow> bool" where
  "int64_decimal s = (decimal_integer s \<and> - (2 ^ 63) \<le> decimal_value s \<and> decimal_value s < 2 ^ 63)"

definition documented_read_form :: "string \<Rightarrow> bool" where
  "documented_read_form s =
     (let segs = segments s; l = length segs
      in (l = 3 \<or> l = 4) \<and> list_all (\<lambda>x. x \<noteq> []) segs \<and> segs ! (l - 3) = ''blobs''
         \<and> decimal_integer (segs ! (l - 1)))"

definition documented_write_form :: "string \<Rightarrow> bool" where
  "documented_write_form s =
     (let segs = segments s; l = length segs
      in (l = 5 \<or> l = 6) \<and> list_all (\<lambda>x. x \<noteq> []) segs \<and> segs ! (l - 5) = ''uploads''
         \<and> segs ! (l - 3) = ''blobs'' \<and> decimal_integer (segs ! (l - 1)))"

text \<open>The segments that are not empty: what is left when leading, trailing and repeated
  slashes are ignored.\<close>

definition nonempty_segments :: "string \<Rightarrow> string list" where
  "nonempty_segments s = filter (\<lambda>x. x \<noteq> []) (segments s)"

section \<open>The ByteStream service: the handlers\<close>

record ReadRequest =
  Read_ResourceName :: string
  ReadOffset :: int
  ReadLimit :: int

text \<open>
  The loop of \<^verbatim>\<open>byteStreamServer.Read\<close>. \<^verbatim>\<open>out.Send\<close> is a parameter, on the state \<open>'o\<close> of
  the response stream. A reader that never ends nor fails keeps the loop running
  (\<open>None\<close>).
\<close>

partial_function (option) byteStreamServer_Read_loop ::
  "'r io_ReadCloser \<Rightarrow> nat \<Rightarrow> (byte list \<Rightarrow> 'o \<Rightarrow> go_error option \<times> 'o) \<Rightarrow> 'o \<Rightarrow>
     (go_error option \<times> 'r io_ReadCloser \<times> 'o) option" where
  "byteStreamServer_Read_loop r readChunkSize Send out =
     (case io_Read r readChunkSize of
        ((readBuf, e), r1) \<Rightarrow>
          if e \<noteq> None \<and> e \<noteq> Some io_EOF then Some (e, r1, out)
          else
            (case (if length readBuf > 0 then Send readBuf out else (None, out)) of
               (Some e1, out1) \<Rightarrow> Some (Some e1, r1, out1)
             | (None, out1) \<Rightarrow>
                 if e = Some io_EOF then Some (None, r1, out1)
                 else byteStreamServer_Read_loop r1 readChunkSize Send out1))"

text \<open>\<^verbatim>\<open>byteStreamServer.Read\<close>; the deferred \<^verbatim>\<open>r.Close()\<close> runs when the loop returns.\<close>

definition byteStreamServer_Read ::
  "(string \<Rightarrow> Digest \<Rightarrow> 'w \<Rightarrow> 'r io_ReadCloser \<times> 'w) \<Rightarrow> nat \<Rightarrow>
   (byte list \<Rightarrow> 'o \<Rightarrow> go_error option \<times> 'o) \<Rightarrow> ReadRequest \<Rightarrow> 'w \<Rightarrow> 'o \<Rightarrow>
     (go_error option \<times> 'w \<times> 'o) option" where
  "byteStreamServer_Read Get readChunkSize Send req w out =
     (if ReadOffset req \<noteq> 0 \<or> ReadLimit req \<noteq> 0
      then Some (Some (status_error Unimplemented
                         ''This service does not support downloading partial files'' []), w, out)
      else
        (case parseResourceNameRead (Read_ResourceName req) of
           (instance, None) \<Rightarrow>
             Some (Some (status_error InvalidArgument ''Invalid resource naming scheme'' []), w, out)
         | (instance, Some digest) \<Rightarrow>
             (let (r, w1) = Get instance digest w in
              case byteStreamServer_Read_loop r readChunkSize Send out of
                None \<Rightarrow> None
              | Some (e, r1, out1) \<Rightarrow> Some (e, w1, out1))))"

text \<open>
  A write stream as the handler sees it: the requests that \<^verbatim>\<open>stream.Recv()\<close> will return,
  and the error with which it ends (\<^verbatim>\<open>io.EOF\<close> when the client has closed its side).
  \<^verbatim>\<open>write_offset\<close> is an int64; the running total of the reader below stays within the
  int64 range for any stream shorter than 2^63 bytes, and both are \<open>int\<close>.
\<close>

record WriteRequest =
  ResourceName :: string
  WriteOffset :: int
  FinishWrite :: bool
  Data :: "byte list"

record WriteStream =
  pending :: "WriteRequest list"
  closing :: go_error

definition stream_Recv :: "WriteStream \<Rightarrow> (go_error + WriteRequest) \<times> WriteStream" where
  "stream_Recv st =
     (case pending st of
        [] \<Rightarrow> (Inl (closing st), st)
      | request # rest \<Rightarrow> (Inr request, st\<lparr>pending := rest\<rparr>))"

record byteStreamWriteServerReader =
  stream :: WriteStream
  writeOffset :: int
  data :: "byte list"

text \<open>
  \<^verbatim>\<open>byteStreamWriteServerReader.Read\<close>: \<open>plen\<close> is the length of what is left of \<^verbatim>\<open>p\<close>, and
  \<open>n\<close> the bytes copied into it so far.
\<close>

function byteStreamWriteServerReader_Read_loop ::
  "byteStreamWriteServerReader \<Rightarrow> nat \<Rightarrow> byte list \<Rightarrow>
     (byte list \<times> go_error option) \<times> byteStreamWriteServerReader" where
  "byteStreamWriteServerReader_Read_loop r plen n =
     (let c = min plen (length (data r));
          p1 = plen - c;
          r1 = r\<lparr>data := drop c (data r)\<rparr>;
          n1 = n @ take c (data r)
      in if p1 = 0 then ((n1, None), r1)
         else
           (case stream_Recv (stream r1) of
              (Inl e, st) \<Rightarrow> ((n1, Some e), r1\<lparr>stream := st\<rparr>)
            | (Inr request, st) \<Rightarrow>
                if WriteOffset request \<noteq> writeOffset r1
                then ((n1, Some (fmt_error ''Attempted to write at offset %d, while %d was expected''
                                   [ArgInt (WriteOffset request), ArgInt (writeOffset r1)])),
                      r1\<lparr>stream := st\<rparr>)
                else byteStreamWriteServerReader_Read_loop
                       (r1\<lparr>stream := st,
                           writeOffset := writeOffset r1 + int (length (Data request)),
                           data := Data request\<rparr>) p1 n1))"
  by pat_completeness auto
termination
  by (relation "measure (\<lambda>(r, plen, n). length (pending (stream r)))")
     (auto simp: stream_Recv_def split: list.splits)

declare byteStreamWriteServerReader_Read_loop.simps [simp del]

definition byteStreamWriteServerReader_Read ::
  "byteStreamWriteServerReader \<Rightarrow> nat \<Rightarrow> (byte list \<times> go_error option) \<times> byteStreamWriteServerReader" where
  "byteStreamWriteServerReader_Read r plen = byteStreamWriteServerReader_Read_loop r plen []"

definition byteStreamWriteServerReader_Close ::
  "byteStreamWriteServerReader \<Rightarrow> go_error option \<times> byteStreamWriteServerReader" where
  "byteStreamWriteServerReader_Close r = (None, r)"

text \<open>\<^verbatim>\<open>byteStreamServer.Write\<close>; \<^verbatim>\<open>s.blobAccess.Put\<close> is the parameter \<open>Put\<close>.\<close>

definition byteStreamServer_Write ::
  "(string \<Rightarrow> Digest \<Rightarrow> int \<Rightarrow> byteStreamWriteServerReader \<Rightarrow> 'w \<Rightarrow> go_error option \<times> 'w) \<Rightarrow>
   WriteStream \<Rightarrow> 'w \<Rightarrow> go_error option \<times> 'w" where
  "byteStreamServer_Write Put st w =
     (case stream_Recv st of
        (Inl e, st1) \<Rightarrow> (Some e, w)
      | (Inr request, st1) \<Rightarrow>
          (case parseResourceNameWrite (ResourceName request) of
             (instance, None) \<Rightarrow>
               (Some (status_error InvalidArgument ''Invalid resource naming scheme'' []), w)
           | (instance, Some digest) \<Rightarrow>
               Put instance digest (SizeBytes digest)
                 \<lparr>stream = st1, writeOffset = int (length (Data request)), data = Data request\<rparr> w))"

section \<open>The ByteStream service: reading a write stream\<close>

text \<open>Successive calls of \<^verbatim>\<open>byteStreamWriteServerReader.Read\<close> with buffers of the given
  lengths: what a consumer of the reader can observe of it.\<close>

fun byteStreamWriteServerReader_Reads ::
  "byteStreamWriteServerReader \<Rightarrow> nat list \<Rightarrow> (byte list \<times> go_error option) list" where
  "byteStreamWriteServerReader_Reads r [] = []"
| "byteStreamWriteServerReader_Reads r (p # ps) =
     (let (res, r1) = byteStreamWriteServerReader_Read r p
      in res # byteStreamWriteServerReader_Reads r1 ps)"

text \<open>
  The requests of a list carry the offsets that the reader expects, starting from
  \<open>wo\<close>: each \<^verbatim>\<open>write_offset\<close> is \<open>wo\<close> plus the number of data bytes of the requests
  before it.
\<close>

fun offsets_follow :: "int \<Rightarrow> WriteRequest list \<Rightarrow> bool" where
  "offsets_follow wo [] = True"
| "offsets_follow wo (q # qs) =
     (WriteOffset q = wo \<and> offsets_follow (wo + int (length (Data q))) qs)"

definition all_data :: "WriteRequest list \<Rightarrow> byte list" where
  "all_data qs = concat (map Data qs)"

text \<open>The bytes that the reader still holds or will receive: they bound its reads.\<close>

definition bytes_left :: "byteStreamWriteServerReader \<Rightarrow> nat" where
  "bytes_left r = length (data r) + length (all_data (pending (stream r)))"

lemma byteStreamWriteServerReader_Read_loop_bytes:
  "byteStreamWriteServerReader_Read_loop r plen n = ((out, e), r1) \<Longrightarrow>
     length out + bytes_left r1 \<le> length n + bytes_left r \<and>
     (e = None \<longrightarrow> length out = length n + plen)"
proof (induction r plen n arbitrary: out e r1 rule: byteStreamWriteServerReader_Read_loop.induct)
  case (1 r plen n)
  let ?c = "min plen (length (data r))"
  let ?r1 = "r\<lparr>data := drop ?c (data r)\<rparr>"
  let ?n1 = "n @ take ?c (data r)"
  show ?case
  proof (cases "plen - ?c = 0")
    case True
    then show ?thesis
      using "1.prems"
      by (subst (asm) byteStreamWriteServerReader_Read_loop.simps)
         (auto simp: Let_def bytes_left_def)
  next
    case False
    show ?thesis
    proof (cases "pending (stream r)")
      case Nil
      then show ?thesis
        using "1.prems" False
        by (subst (asm) byteStreamWriteServerReader_Read_loop.simps)
           (auto simp: Let_def stream_Recv_def bytes_left_def all_data_def)
    next
      case (Cons q qs)
      have recv: "stream_Recv (stream ?r1) = (Inr q, (stream r)\<lparr>pending := qs\<rparr>)"
        using Cons by (simp add: stream_Recv_def)
      show ?thesis
      proof (cases "WriteOffset q \<noteq> writeOffset r")
        case True
        then show ?thesis
          using "1.prems" False recv Cons
          by (subst (asm) byteStreamWriteServerReader_Read_loop.simps)
             (auto simp: Let_def bytes_left_def all_data_def)
      next
        case ok: False
        let ?r2 = "?r1\<lparr>stream := (stream r)\<lparr>pending := qs\<rparr>,
                       writeOffset := writeOffset ?r1 + int (length (Data q)),
                       data := Data q\<rparr>"
        have run: "byteStreamWriteServerReader_Read_loop ?r2 (plen - ?c) ?n1 = ((out, e), r1)"
          using "1.prems" False recv ok
          by (subst (asm) byteStreamWriteServerReader_Read_loop.simps) (simp add: Let_def)
        have IH: "length out + bytes_left r1 \<le> length ?n1 + bytes_left ?r2 \<and>
                  (e = None \<longrightarrow> length out = length ?n1 + (plen - ?c))"
          by (rule "1.IH"[OF refl refl refl refl False recv[symmetric] refl _ run])
             (use ok in simp)
        then show ?thesis using Cons False
          by (auto simp: bytes_left_def all_data_def)
      qed
    qed
  qed
qed

text \<open>
  \<^verbatim>\<open>ioutil.ReadAll\<close> on this reader: it reads until the reader returns an error, and
  \<^verbatim>\<open>io.EOF\<close> is not an error of its own. The library reads into the free space of a
  growing buffer, never less than \<^verbatim>\<open>bytes.MinRead\<close> = 512 bytes; the length of the
  buffer is taken as 512 at every call.
\<close>

function ioutil_ReadAll ::
  "byteStreamWriteServerReader \<Rightarrow> (byte list \<times> go_error option) \<times> byteStreamWriteServerReader" where
  "ioutil_ReadAll r =
     (let res = byteStreamWriteServerReader_Read r 512 in
      if snd (fst res) = None
      then (let rec = ioutil_ReadAll (snd res)
            in ((fst (fst res) @ fst (fst rec), snd (fst rec)), snd rec))
      else ((fst (fst res), if snd (fst res) = Some io_EOF then None else snd (fst res)), snd res))"
  by pat_completeness auto
termination
proof (relation "measure bytes_left")
  show "wf (measure bytes_left)" by simp
next
  fix r res
  assume res: "res = byteStreamWriteServerReader_Read r 512" and none: "snd (fst res) = None"
  obtain out e r1 where eq: "byteStreamWriteServerReader_Read_loop r 512 [] = ((out, e), r1)"
    by (cases "byteStreamWriteServerReader_Read_loop r 512 []") auto
  from byteStreamWriteServerReader_Read_loop_bytes[OF eq] res none eq
  have "512 + bytes_left r1 \<le> bytes_left r"
    by (simp add: byteStreamWriteServerReader_Read_def)
  then show "(snd res, r) \<in> measure bytes_left"
    using res eq by (simp add: byteStreamWriteServerReader_Read_def)
qed

declare ioutil_ReadAll.simps [simp del]

text \<open>
  \<^verbatim>\<open>redisBlobAccess.Put\<close> (unnamed/part_001). \<^verbatim>\<open>Set(key, value, 0)\<close> stores the value
  unless the connection fails.
\<close>

definition redis_Set :: "string \<Rightarrow> byte list \<Rightarrow> redis_Client \<Rightarrow> go_error option \<times> redis_Client" where
  "redis_Set key v c =
     (case failing c of
        Some e \<Rightarrow> (Some e, c)
      | None \<Rightarrow> (None, c\<lparr>db := (db c)(key \<mapsto> v), executed := executed c @ [[SET key v]]\<rparr>))"

definition redisBlobAccess_Put ::
  "(string \<Rightarrow> Digest \<Rightarrow> go_error + string) \<Rightarrow> go_error option \<Rightarrow> string \<Rightarrow> Digest \<Rightarrow>
     byteStreamWriteServerReader \<Rightarrow> redis_Client \<Rightarrow>
     (go_error option \<times> byteStreamWriteServerReader) \<times> redis_Client" where
  "redisBlobAccess_Put blobKeyer ctx_Err instance digest r c =
     (case ctx_Err of
        Some e \<Rightarrow> ((Some e, r), c)
      | None \<Rightarrow>
          (let ((v, e), r1) = ioutil_ReadAll r;
               r2 = snd (byteStreamWriteServerReader_Close r1)
           in case e of
                Some e1 \<Rightarrow> ((Some e1, r2), c)
              | None \<Rightarrow>
                  (case blobKeyer instance digest of
                     Inl e2 \<Rightarrow> ((Some e2, r2), c)
                   | Inr key \<Rightarrow>
                       (let (e3, c1) = redis_Set key v c in ((e3, r2), c1)))))"

text \<open>
  The Redis store as the back end of \<^verbatim>\<open>Write\<close>. (The \<^verbatim>\<open>Put\<close> of that file takes no size;
  \<^verbatim>\<open>Write\<close> passes one, which is dropped here.)
\<close>

definition Write_redis_Put ::
  "(string \<Rightarrow> Digest \<Rightarrow> go_error + string) \<Rightarrow> go_error option \<Rightarrow> string \<Rightarrow> Digest \<Rightarrow> int \<Rightarrow>
     byteStreamWriteServerReader \<Rightarrow> redis_Client \<Rightarrow> go_error option \<times> redis_Client" where
  "Write_redis_Put blobKeyer ctx_Err instance digest sizeBytes r c =
     (let ((e, r1), c1) = redisBlobAccess_Put blobKeyer ctx_Err instance digest r c in (e, c1))"

text \<open>
  A stream with the fields blanked that claim C10 calls ignored: the \<^verbatim>\<open>write_offset\<close> of
  the first request and the \<^verbatim>\<open>resource_name\<close> of every later one. Two streams with the
  same image differ in those fields only.
\<close>

definition erase_ignored :: "WriteStream \<Rightarrow> WriteStream" where
  "erase_ignored st =
     st\<lparr>pending :=
          (case pending st of
             [] \<Rightarrow> []
           | q # qs \<Rightarrow> q\<lparr>WriteOffset := 0\<rparr> # map (\<lambda>x. x\<lparr>ResourceName := []\<rparr>) qs)\<rparr>"

text \<open>
  Two readers that a consumer cannot tell apart by their fields: they agree on
  everything but the \<^verbatim>\<open>resource_name\<close> of the requests still to come.
\<close>

definition same_visible :: "byteStreamWriteServerReader \<Rightarrow> byteStreamWriteServerReader \<Rightarrow> bool" where
  "same_visible r1 r2 =
     (writeOffset r1 = writeOffset r2 \<and> data r1 = data r2 \<and>
      closing (stream r1) = closing (stream r2) \<and>
      map (\<lambda>x. x\<lparr>ResourceName := []\<rparr>) (pending (stream r1)) =
      map (\<lambda>x. x\<lparr>ResourceName := []\<rparr>) (pending (stream r2)))"


definition example_stream1 :: WriteStream where
  "example_stream1 =
     \<lparr>pending =
        [\<lparr>ResourceName = ''uploads/u/blobs/06/3'', WriteOffset = 7, FinishWrite = False, Data = [1, 2]\<rparr>,
         \<lparr>ResourceName = ''anything'', WriteOffset = 2, FinishWrite = True, Data = [3]\<rparr>],
      closing = io_EOF\<rparr>"

definition example_stream2 :: WriteStream where
  "example_stream2 =
     \<lparr>pending =
        [\<lparr>ResourceName = ''uploads/u/blobs/06/3'', WriteOffset = 0, FinishWrite = False, Data = [1, 2]\<rparr>,
         \<lparr>ResourceName = [], WriteOffset = 2, FinishWrite = True, Data = [3]\<rparr>],
      closing = io_EOF\<rparr>"



section \<open>The verifying reader\<close>

lemma tee_hash_Write: "(if length dat > 0 then hash_Write h dat else h) = hash_Write h dat"
  by (simp add: hash_Write_def)

lemma hash_Write_append: "hash_Write (hash_Write h a) b = hash_Write h (a @ b)"
  by (simp add: hash_Write_def)

lemma hash_Write_Nil: "hash_Write h [] = h"
  by (simp add: hash_Write_def)

lemma hash_Sum_Write: "hash_Sum (hash_Write h a) = hash_fn h (hash_written h @ a)"
  by (simp add: hash_Sum_def hash_Write_def)

lemma TeeReader_Read_eq:
  "io_Read rc plen = ((dat, err), rc1) \<Longrightarrow>
   TeeReader_Read rc h plen = ((dat, err), rc1, hash_Write h dat)"
  by (simp add: TeeReader_Read_def hash_Write_def)

lemma Read_longer:
  assumes "io_Read (ReadCloser r) plen = ((dat, err), rc1)"
      and "sizeLeft r < int (length dat)"
  shows "checksumValidatingReader_Read r plen w =
           (([], Some (status_error (errorCode r) ''Blob is longer than expected'' [])),
            r\<lparr>ReadCloser := rc1, partialChecksum := hash_Write (partialChecksum r) dat\<rparr>,
            invalidator r w)"
  using assms by (simp add: checksumValidatingReader_Read_def TeeReader_Read_eq)

lemma Read_shorter:
  assumes "io_Read (ReadCloser r) plen = ((dat, Some io_EOF), rc1)"
      and "int (length dat) < sizeLeft r"
  shows "checksumValidatingReader_Read r plen w =
           (([], Some (status_error (errorCode r) ''Blob is %d bytes shorter than expected''
                         [ArgInt (sizeLeft r - int (length dat))])),
            r\<lparr>ReadCloser := rc1, partialChecksum := hash_Write (partialChecksum r) dat,
              sizeLeft := sizeLeft r - int (length dat)\<rparr>,
            invalidator r w)"
  using assms by (simp add: checksumValidatingReader_Read_def TeeReader_Read_eq Let_def)

lemma Read_mismatch:
  assumes "io_Read (ReadCloser r) plen = ((dat, Some io_EOF), rc1)"
      and "int (length dat) = sizeLeft r"
      and "hash_fn (partialChecksum r) (hash_written (partialChecksum r) @ dat) \<noteq> expectedChecksum r"
  shows "checksumValidatingReader_Read r plen w =
           (([], Some (status_error (errorCode r) ''Checksum of blob is %s, while %s was expected''
                         [ArgStr (hex_EncodeToString
                                    (hash_fn (partialChecksum r) (hash_written (partialChecksum r) @ dat))),
                          ArgStr (hex_EncodeToString (expectedChecksum r))])),
            r\<lparr>ReadCloser := rc1, partialChecksum := hash_Write (partialChecksum r) dat,
              sizeLeft := 0\<rparr>,
            invalidator r w)"
  using assms by (simp add: checksumValidatingReader_Read_def TeeReader_Read_eq Let_def hash_Sum_Write)

lemma Read_pass_EOF:
  assumes "io_Read (ReadCloser r) plen = ((dat, Some io_EOF), rc1)"
      and "int (length dat) = sizeLeft r"
      and "hash_fn (partialChecksum r) (hash_written (partialChecksum r) @ dat) = expectedChecksum r"
  shows "checksumValidatingReader_Read r plen w =
           ((dat, Some io_EOF),
            r\<lparr>ReadCloser := rc1, partialChecksum := hash_Write (partialChecksum r) dat,
              sizeLeft := 0\<rparr>, w)"
  using assms by (simp add: checksumValidatingReader_Read_def TeeReader_Read_eq Let_def hash_Sum_Write)

lemma Read_pass:
  assumes "io_Read (ReadCloser r) plen = ((dat, err), rc1)"
      and "int (length dat) \<le> sizeLeft r"
      and "err \<noteq> Some io_EOF"
  shows "checksumValidatingReader_Read r plen w =
           ((dat, err),
            r\<lparr>ReadCloser := rc1, partialChecksum := hash_Write (partialChecksum r) dat,
              sizeLeft := sizeLeft r - int (length dat)\<rparr>, w)"
  using assms by (simp add: checksumValidatingReader_Read_def TeeReader_Read_eq Let_def)

lemma Reads_append:
  "checksumValidatingReader_Reads r (ps @ qs) w =
     (let (rs, r1, w1) = checksumValidatingReader_Reads r ps w;
          (rs', r2, w2) = checksumValidatingReader_Reads r1 qs w1
      in (rs @ rs', r2, w2))"
  by (induction ps arbitrary: r w) (simp_all add: Let_def split: prod.splits)

lemma Reads_passing:
  assumes "io_Reads (ReadCloser r) ps = (rs, rc1)"
      and "list_all (\<lambda>res. snd res \<noteq> Some io_EOF) rs"
      and "int (length (concat (map fst rs))) \<le> sizeLeft r"
  shows "checksumValidatingReader_Reads r ps w =
           (rs,
            r\<lparr>ReadCloser := rc1, partialChecksum := hash_Write (partialChecksum r) (concat (map fst rs)),
              sizeLeft := sizeLeft r - int (length (concat (map fst rs)))\<rparr>, w)"
  using assms
proof (induction ps arbitrary: r rs)
  case Nil
  then show ?case by (simp add: hash_Write_Nil)
next
  case (Cons p ps)
  obtain d e rcA where rd: "io_Read (ReadCloser r) p = ((d, e), rcA)"
    by (cases "io_Read (ReadCloser r) p") auto
  obtain rs' rcB where rds: "io_Reads rcA ps = (rs', rcB)" by (cases "io_Reads rcA ps")
  from Cons.prems(1) rd rds have rs: "rs = (d, e) # rs'" and rcB: "rcB = rc1"
    by simp_all
  let ?r1 = "r\<lparr>ReadCloser := rcA, partialChecksum := hash_Write (partialChecksum r) d,
              sizeLeft := sizeLeft r - int (length d)\<rparr>"
  have le: "int (length d) \<le> sizeLeft r" and ne: "e \<noteq> Some io_EOF"
    using Cons.prems(2,3) rs by simp_all
  have step: "checksumValidatingReader_Read r p w = ((d, e), ?r1, w)"
    using Read_pass[OF rd le ne] .
  have "checksumValidatingReader_Reads ?r1 ps w =
           (rs',
            ?r1\<lparr>ReadCloser := rc1, partialChecksum := hash_Write (partialChecksum ?r1) (concat (map fst rs')),
              sizeLeft := sizeLeft ?r1 - int (length (concat (map fst rs')))\<rparr>, w)"
    by (rule Cons.IH) (use rds rs rcB Cons.prems(2,3) in simp_all)
  then show ?case
    using step rs by (simp add: hash_Write_append algebra_simps)
qed

text \<open>
  Claim C1. For every read through the verifying reader, after any reads that passed
  (no error but possibly a foreign one, and the bytes so far within the size): when the
  bytes delivered so far exceed the remaining size (\<^verbatim>\<open>digest.size_bytes\<close> in a fresh
  reader), the read fails with "Blob is longer than expected" and the invalidator is
  called; at \<^verbatim>\<open>io.EOF\<close> with bytes still missing it fails with "shorter than expected"
  and the invalidator is called; at \<^verbatim>\<open>io.EOF\<close> with nothing missing the hash of all bytes
  is compared with the expected checksum, and a mismatch fails and calls the
  invalidator; and a stream of exactly the size whose hash is the expected one is
  returned as the underlying reader gave it, the invalidator not called.
\<close>

theorem checksumValidatingReader_Read_verifies:
  assumes pre: "io_Reads (ReadCloser r) ps = (rs, rc1)"
      and noeof: "list_all (\<lambda>res. snd res \<noteq> Some io_EOF) rs"
      and within: "int (length (concat (map fst rs))) \<le> sizeLeft r"
      and last: "io_Read rc1 p = ((d, err), rc2)"
  shows "(sizeLeft r < int (length (concat (map fst rs) @ d)) \<longrightarrow>
            fst (checksumValidatingReader_Reads r (ps @ [p]) w) =
              rs @ [([], Some (status_error (errorCode r) ''Blob is longer than expected'' []))] \<and>
            snd (snd (checksumValidatingReader_Reads r (ps @ [p]) w)) = invalidator r w)
       \<and> (err = Some io_EOF \<and> int (length (concat (map fst rs) @ d)) < sizeLeft r \<longrightarrow>
            fst (checksumValidatingReader_Reads r (ps @ [p]) w) =
              rs @ [([], Some (status_error (errorCode r) ''Blob is %d bytes shorter than expected''
                                 [ArgInt (sizeLeft r - int (length (concat (map fst rs) @ d)))]))] \<and>
            snd (snd (checksumValidatingReader_Reads r (ps @ [p]) w)) = invalidator r w)
       \<and> (err = Some io_EOF \<and> int (length (concat (map fst rs) @ d)) = sizeLeft r \<and>
          hash_fn (partialChecksum r) (hash_written (partialChecksum r) @ concat (map fst rs) @ d)
            \<noteq> expectedChecksum r \<longrightarrow>
            fst (checksumValidatingReader_Reads r (ps @ [p]) w) =
              rs @ [([], Some (status_error (errorCode r) ''Checksum of blob is %s, while %s was expected''
                                 [ArgStr (hex_EncodeToString (hash_fn (partialChecksum r)
                                    (hash_written (partialChecksum r) @ concat (map fst rs) @ d))),
                                  ArgStr (hex_EncodeToString (expectedChecksum r))]))] \<and>
            snd (snd (checksumValidatingReader_Reads r (ps @ [p]) w)) = invalidator r w)
       \<and> (err = Some io_EOF \<and> int (length (concat (map fst rs) @ d)) = sizeLeft r \<and>
          hash_fn (partialChecksum r) (hash_written (partialChecksum r) @ concat (map fst rs) @ d)
            = expectedChecksum r \<longrightarrow>
            fst (checksumValidatingReader_Reads r (ps @ [p]) w) = rs @ [(d, Some io_EOF)] \<and>
            snd (snd (checksumValidatingReader_Reads r (ps @ [p]) w)) = w)"
proof -
  let ?B = "concat (map fst rs)"
  let ?r1 = "r\<lparr>ReadCloser := rc1, partialChecksum := hash_Write (partialChecksum r) ?B,
              sizeLeft := sizeLeft r - int (length ?B)\<rparr>"
  have pref: "checksumValidatingReader_Reads r ps w = (rs, ?r1, w)"
    by (rule Reads_passing[OF pre noeof within])
  have last1: "io_Read (ReadCloser ?r1) p = ((d, err), rc2)" using last by simp
  have run: "checksumValidatingReader_Reads r (ps @ [p]) w =
      (let (res, r2, w2) = checksumValidatingReader_Read ?r1 p w in (rs @ [res], r2, w2))"
    by (simp add: Reads_append pref split: prod.splits)
  let ?run = "checksumValidatingReader_Reads r (ps @ [p]) w"
  let ?n = "int (length (concat (map fst rs) @ d))"
  let ?h = "hash_fn (partialChecksum r) (hash_written (partialChecksum r) @ ?B @ d)"
  have A: "sizeLeft r < ?n \<longrightarrow>
            fst ?run = rs @ [([], Some (status_error (errorCode r) ''Blob is longer than expected'' []))] \<and>
            snd (snd ?run) = invalidator r w"
  proof
    assume "sizeLeft r < ?n"
    then have "sizeLeft ?r1 < int (length d)" by simp
    from Read_longer[OF last1 this, of w] run
    show "fst ?run = rs @ [([], Some (status_error (errorCode r) ''Blob is longer than expected'' []))] \<and>
            snd (snd ?run) = invalidator r w" by simp
  qed
  have B: "err = Some io_EOF \<and> ?n < sizeLeft r \<longrightarrow>
            fst ?run = rs @ [([], Some (status_error (errorCode r) ''Blob is %d bytes shorter than expected''
                                 [ArgInt (sizeLeft r - ?n)]))] \<and>
            snd (snd ?run) = invalidator r w"
  proof
    assume h: "err = Some io_EOF \<and> ?n < sizeLeft r"
    then have l: "io_Read (ReadCloser ?r1) p = ((d, Some io_EOF), rc2)" using last1 by simp
    have "int (length d) < sizeLeft ?r1" using h by simp
    from Read_shorter[OF l this, of w] run
    show "fst ?run = rs @ [([], Some (status_error (errorCode r) ''Blob is %d bytes shorter than expected''
                                 [ArgInt (sizeLeft r - ?n)]))] \<and>
            snd (snd ?run) = invalidator r w" by (simp add: algebra_simps)
  qed
  have C: "err = Some io_EOF \<and> ?n = sizeLeft r \<and> ?h \<noteq> expectedChecksum r \<longrightarrow>
            fst ?run = rs @ [([], Some (status_error (errorCode r) ''Checksum of blob is %s, while %s was expected''
                                 [ArgStr (hex_EncodeToString ?h),
                                  ArgStr (hex_EncodeToString (expectedChecksum r))]))] \<and>
            snd (snd ?run) = invalidator r w"
  proof
    assume h: "err = Some io_EOF \<and> ?n = sizeLeft r \<and> ?h \<noteq> expectedChecksum r"
    then have l: "io_Read (ReadCloser ?r1) p = ((d, Some io_EOF), rc2)" using last1 by simp
    have s: "int (length d) = sizeLeft ?r1" using h by simp
    have m: "hash_fn (partialChecksum ?r1) (hash_written (partialChecksum ?r1) @ d) \<noteq> expectedChecksum ?r1"
      using h by (simp add: hash_Write_def)
    from Read_mismatch[OF l s m, of w] run
    show "fst ?run = rs @ [([], Some (status_error (errorCode r) ''Checksum of blob is %s, while %s was expected''
                                 [ArgStr (hex_EncodeToString ?h),
                                  ArgStr (hex_EncodeToString (expectedChecksum r))]))] \<and>
            snd (snd ?run) = invalidator r w" by (simp add: hash_Write_def)
  qed
  have D: "err = Some io_EOF \<and> ?n = sizeLeft r \<and> ?h = expectedChecksum r \<longrightarrow>
            fst ?run = rs @ [(d, Some io_EOF)] \<and> snd (snd ?run) = w"
  proof
    assume h: "err = Some io_EOF \<and> ?n = sizeLeft r \<and> ?h = expectedChecksum r"
    then have l: "io_Read (ReadCloser ?r1) p = ((d, Some io_EOF), rc2)" using last1 by simp
    have s: "int (length d) = sizeLeft ?r1" using h by simp
    have m: "hash_fn (partialChecksum ?r1) (hash_written (partialChecksum ?r1) @ d) = expectedChecksum ?r1"
      using h by (simp add: hash_Write_def)
    from Read_pass_EOF[OF l s m, of w] run
    show "fst ?run = rs @ [(d, Some io_EOF)] \<and> snd (snd ?run) = w" by simp
  qed
  from A B C D show ?thesis by (intro conjI)
qed

lemmas example_defs = example_reader_def bytes_NewReader_def bytes_Reader_Read_def io_Read_def
  hash_New_def sum_hash_def

theorem checksumValidatingReader_Read_verifies_witness:
  "fst (checksumValidatingReader_Reads (example_reader [1, 2, 3] [6] 2) [2, 2] 0) =
     [([1, 2], None), ([], Some (status_error Internal ''Blob is longer than expected'' []))]
   \<and> snd (snd (checksumValidatingReader_Reads (example_reader [1, 2, 3] [6] 2) [2, 2] 0)) = 1
   \<and> fst (checksumValidatingReader_Reads (example_reader [1, 2, 3] [6] 5) [2, 2, 2] 0) =
     [([1, 2], None), ([3], None),
      ([], Some (status_error Internal ''Blob is %d bytes shorter than expected'' [ArgInt 2]))]
   \<and> snd (snd (checksumValidatingReader_Reads (example_reader [1, 2, 3] [6] 5) [2, 2, 2] 0)) = 1
   \<and> fst (checksumValidatingReader_Reads (example_reader [1, 2, 3] [7] 3) [2, 2, 2] 0) =
     [([1, 2], None), ([3], None),
      ([], Some (status_error Internal ''Checksum of blob is %s, while %s was expected''
                   [ArgStr ''06'', ArgStr ''07'']))]
   \<and> snd (snd (checksumValidatingReader_Reads (example_reader [1, 2, 3] [7] 3) [2, 2, 2] 0)) = 1
   \<and> fst (checksumValidatingReader_Reads (example_reader [1, 2, 3] [6] 3) [2, 2, 2] 0) =
     [([1, 2], None), ([3], None), ([], Some io_EOF)]
   \<and> snd (snd (checksumValidatingReader_Reads (example_reader [1, 2, 3] [6] 3) [2, 2, 2] 0)) = 0"
proof -
  have p1: "io_Reads (ReadCloser (example_reader [1, 2, 3] e n)) [2] =
      ([([1, 2], None)], bytes_NewReader [3])" for e n
    by (simp add: example_defs)
  have p2: "io_Reads (ReadCloser (example_reader [1, 2, 3] e n)) [2, 2] =
      ([([1, 2], None), ([3], None)], bytes_NewReader [])" for e n
    by (simp add: example_defs)
  have l1: "io_Read (bytes_NewReader [3]) 2 = (([3], None), bytes_NewReader [])"
    by (simp add: example_defs)
  have l2: "io_Read (bytes_NewReader []) 2 = (([], Some io_EOF), bytes_NewReader [])"
    by (simp add: example_defs)
  have A: "fst (checksumValidatingReader_Reads (example_reader [1, 2, 3] [6] 2) [2, 2] 0) =
     [([1, 2], None), ([], Some (status_error Internal ''Blob is longer than expected'' []))]
   \<and> snd (snd (checksumValidatingReader_Reads (example_reader [1, 2, 3] [6] 2) [2, 2] 0)) = 1"
    using checksumValidatingReader_Read_verifies[OF p1 _ _ l1, of "[6]" 2 0]
    by (simp add: example_reader_def)
  have B: "fst (checksumValidatingReader_Reads (example_reader [1, 2, 3] [6] 5) [2, 2, 2] 0) =
     [([1, 2], None), ([3], None),
      ([], Some (status_error Internal ''Blob is %d bytes shorter than expected'' [ArgInt 2]))]
   \<and> snd (snd (checksumValidatingReader_Reads (example_reader [1, 2, 3] [6] 5) [2, 2, 2] 0)) = 1"
    using checksumValidatingReader_Read_verifies[OF p2 _ _ l2, of "[6]" 5 0]
    by (simp add: example_reader_def)
  have C: "fst (checksumValidatingReader_Reads (example_reader [1, 2, 3] [7] 3) [2, 2, 2] 0) =
     [([1, 2], None), ([3], None),
      ([], Some (status_error Internal ''Checksum of blob is %s, while %s was expected''
                   [ArgStr ''06'', ArgStr ''07'']))]
   \<and> snd (snd (checksumValidatingReader_Reads (example_reader [1, 2, 3] [7] 3) [2, 2, 2] 0)) = 1"
    using checksumValidatingReader_Read_verifies[OF p2 _ _ l2, of "[7]" 3 0]
    by (simp add: example_reader_def hash_New_def sum_hash_def hextable_def)
  have D: "fst (checksumValidatingReader_Reads (example_reader [1, 2, 3] [6] 3) [2, 2, 2] 0) =
     [([1, 2], None), ([3], None), ([], Some io_EOF)]
   \<and> snd (snd (checksumValidatingReader_Reads (example_reader [1, 2, 3] [6] 3) [2, 2, 2] 0)) = 0"
    using checksumValidatingReader_Read_verifies[OF p2 _ _ l2, of "[6]" 3 0]
    by (simp add: example_reader_def hash_New_def sum_hash_def)
  from A B C D show ?thesis by (intro conjI) simp_all
qed

section \<open>Digest validation\<close>

lemma lower_hex_range:
  "lower_hex c \<longleftrightarrow> \<not> (((of_char c :: nat) < 48 \<or> (of_char c :: nat) > 57) \<and>
         ((of_char c :: nat) < 97 \<or> (of_char c :: nat) > 102))"
proof
  assume "lower_hex c"
  then show "\<not> (((of_char c :: nat) < 48 \<or> (of_char c :: nat) > 57) \<and>
         ((of_char c :: nat) < 97 \<or> (of_char c :: nat) > 102))"
    unfolding lower_hex_def by auto
next
  let ?n = "of_char c :: nat"
  assume "\<not> ((?n < 48 \<or> ?n > 57) \<and> (?n < 97 \<or> ?n > 102))"
  then have "?n = of_char CHR ''0'' \<or>
      ?n = of_char CHR ''1'' \<or>
      ?n = of_char CHR ''2'' \<or>
      ?n = of_char CHR ''3'' \<or>
      ?n = of_char CHR ''4'' \<or>
      ?n = of_char CHR ''5'' \<or>
      ?n = of_char CHR ''6'' \<or>
      ?n = of_char CHR ''7'' \<or>
      ?n = of_char CHR ''8'' \<or>
      ?n = of_char CHR ''9'' \<or>
      ?n = of_char CHR ''a'' \<or>
      ?n = of_char CHR ''b'' \<or>
      ?n = of_char CHR ''c'' \<or>
      ?n = of_char CHR ''d'' \<or>
      ?n = of_char CHR ''e'' \<or>
      ?n = of_char CHR ''f''"
    by simp arith
  then have "c = CHR ''0'' \<or>
      c = CHR ''1'' \<or>
      c = CHR ''2'' \<or>
      c = CHR ''3'' \<or>
      c = CHR ''4'' \<or>
      c = CHR ''5'' \<or>
      c = CHR ''6'' \<or>
      c = CHR ''7'' \<or>
      c = CHR ''8'' \<or>
      c = CHR ''9'' \<or>
      c = CHR ''a'' \<or>
      c = CHR ''b'' \<or>
      c = CHR ''c'' \<or>
      c = CHR ''d'' \<or>
      c = CHR ''e'' \<or>
      c = CHR ''f''"
    by (simp only: of_char_eq_iff)
  then show "lower_hex c"
    unfolding lower_hex_def by simp
qed

lemma validateDigest_chars_None:
  "validateDigest_chars h = None \<longleftrightarrow> (\<forall>c\<in>set h. lower_hex c)"
  by (induction h) (auto simp: lower_hex_range)

lemma validateDigest_chars_code:
  "validateDigest_chars h = Some e \<Longrightarrow> status_Code e = InvalidArgument"
  by (induction h) (auto split: if_splits)


lemma validateDigest_Inr:
  "validateDigest dff d = Inr f \<longleftrightarrow>
     dff (length (Hash d)) = Inr f \<and> (\<forall>c\<in>set (Hash d). lower_hex c) \<and> 0 \<le> SizeBytes d"
  by (auto simp: validateDigest_def validateDigest_chars_None[symmetric]
           split: sum.splits option.splits)

lemma validateDigest_Inl_code:
  assumes "\<forall>n e. dff n = Inl e \<longrightarrow> status_Code e = InvalidArgument"
      and "validateDigest dff d = Inl e"
  shows "status_Code e = InvalidArgument"
  using assms
  by (auto simp: validateDigest_def split: sum.splits option.splits if_splits
           dest: validateDigest_chars_code)

lemma FindMissing_validate_invalid:
  assumes "\<forall>n e. dff n = Inl e \<longrightarrow> status_Code e = InvalidArgument"
      and "d \<in> set digests" and "validateDigest dff d = Inl e"
  shows "\<exists>e'. FindMissing_validate dff digests = Some e' \<and> status_Code e' = InvalidArgument"
  using assms(2,3)
proof (induction digests)
  case Nil
  then show ?case by simp
next
  case (Cons x xs)
  show ?case
  proof (cases "validateDigest dff x")
    case (Inl ex)
    then show ?thesis using validateDigest_Inl_code[OF assms(1) Inl] by simp
  next
    case (Inr f)
    then have "d \<in> set xs" using Cons.prems by auto
    then show ?thesis using Cons.IH Cons.prems(2) Inr by simp
  qed
qed

lemma upper_not_lower_hex: "c \<in> set ''ABCDEF'' \<Longrightarrow> \<not> lower_hex c"
  by (auto simp: lower_hex_def)

text \<open>
  Claim C3. \<^verbatim>\<open>validateDigest\<close> accepts a digest exactly when the length of its hash is one
  that \<^verbatim>\<open>util.DigestFormatFromLength\<close> knows, every character of the hash is one of
  \<^verbatim>\<open>0123456789abcdef\<close> (so a hash with an uppercase digit is rejected) and the size is
  not negative. When it rejects a digest with an error, that error has the code
  InvalidArgument (for an unknown length: provided the errors of
  \<^verbatim>\<open>util.DigestFormatFromLength\<close>, which is not among the sources, have that code, as the
  specification says); \<^verbatim>\<open>Get\<close> returns the reader of that error, \<^verbatim>\<open>Put\<close> closes the
  supplied reader and returns the error, \<^verbatim>\<open>Delete\<close> returns it, and \<^verbatim>\<open>FindMissing\<close> on
  any list that holds the digest fails with InvalidArgument; none of them calls the
  wrapped store.
\<close>

theorem validateDigest_rejects_with_InvalidArgument:
  assumes codes: "\<forall>n e. dff n = Inl e \<longrightarrow> status_Code e = InvalidArgument"
  shows "(validateDigest dff d = Inr f \<longleftrightarrow>
            dff (length (Hash d)) = Inr f \<and> (\<forall>c\<in>set (Hash d). lower_hex c) \<and> 0 \<le> SizeBytes d)
       \<and> ((\<exists>c\<in>set (Hash d). c \<in> set ''ABCDEF'') \<longrightarrow> (\<exists>e. validateDigest dff d = Inl e))
       \<and> (validateDigest dff d = Inl e \<longrightarrow>
            status_Code e = InvalidArgument
          \<and> merkleBlobAccess_Get dff blobAccess instance d s = (ErrorReader e, s)
          \<and> merkleBlobAccess_Put dff blobAccess instance d sizeBytes r s =
              Returns ((Some e, snd (io_Close r)), s)
          \<and> merkleBlobAccess_Delete dff blobAccess instance d s = (Some e, s)
          \<and> (\<forall>digests. d \<in> set digests \<longrightarrow>
               (\<exists>e'. merkleBlobAccess_FindMissing dff blobAccess instance digests s = (([], Some e'), s)
                     \<and> status_Code e' = InvalidArgument)))"
proof -
  have A: "validateDigest dff d = Inr f \<longleftrightarrow>
            dff (length (Hash d)) = Inr f \<and> (\<forall>c\<in>set (Hash d). lower_hex c) \<and> 0 \<le> SizeBytes d"
    by (rule validateDigest_Inr)
  have B: "(\<exists>c\<in>set (Hash d). c \<in> set ''ABCDEF'') \<longrightarrow> (\<exists>e. validateDigest dff d = Inl e)"
  proof
    assume "\<exists>c\<in>set (Hash d). c \<in> set ''ABCDEF''"
    then obtain c where "c \<in> set (Hash d)" "\<not> lower_hex c"
      using upper_not_lower_hex by blast
    then have "\<not> (\<exists>g. validateDigest dff d = Inr g)"
      using validateDigest_Inr by blast
    then show "\<exists>e. validateDigest dff d = Inl e"
      by (cases "validateDigest dff d") auto
  qed
  have C: "validateDigest dff d = Inl e \<longrightarrow>
            status_Code e = InvalidArgument
          \<and> merkleBlobAccess_Get dff blobAccess instance d s = (ErrorReader e, s)
          \<and> merkleBlobAccess_Put dff blobAccess instance d sizeBytes r s =
              Returns ((Some e, snd (io_Close r)), s)
          \<and> merkleBlobAccess_Delete dff blobAccess instance d s = (Some e, s)
          \<and> (\<forall>digests. d \<in> set digests \<longrightarrow>
               (\<exists>e'. merkleBlobAccess_FindMissing dff blobAccess instance digests s = (([], Some e'), s)
                     \<and> status_Code e' = InvalidArgument))"
  proof
    assume inv: "validateDigest dff d = Inl e"
    have 1: "status_Code e = InvalidArgument"
      by (rule validateDigest_Inl_code[OF codes inv])
    have 2: "merkleBlobAccess_Get dff blobAccess instance d s = (ErrorReader e, s)"
      by (simp add: merkleBlobAccess_Get_def inv)
    have 3: "merkleBlobAccess_Put dff blobAccess instance d sizeBytes r s =
              Returns ((Some e, snd (io_Close r)), s)"
      by (simp add: merkleBlobAccess_Put_def inv)
    have 4: "merkleBlobAccess_Delete dff blobAccess instance d s = (Some e, s)"
      by (simp add: merkleBlobAccess_Delete_def inv)
    have 5: "\<forall>digests. d \<in> set digests \<longrightarrow>
               (\<exists>e'. merkleBlobAccess_FindMissing dff blobAccess instance digests s = (([], Some e'), s)
                     \<and> status_Code e' = InvalidArgument)"
    proof (intro allI impI)
      fix digests assume "d \<in> set digests"
      from FindMissing_validate_invalid[OF codes this inv]
      obtain e' where "FindMissing_validate dff digests = Some e'" "status_Code e' = InvalidArgument"
        by blast
      then show "\<exists>e'. merkleBlobAccess_FindMissing dff blobAccess instance digests s = (([], Some e'), s)
                     \<and> status_Code e' = InvalidArgument"
        by (simp add: merkleBlobAccess_FindMissing_def)
    qed
    from 1 2 3 4 5 show "status_Code e = InvalidArgument
          \<and> merkleBlobAccess_Get dff blobAccess instance d s = (ErrorReader e, s)
          \<and> merkleBlobAccess_Put dff blobAccess instance d sizeBytes r s =
              Returns ((Some e, snd (io_Close r)), s)
          \<and> merkleBlobAccess_Delete dff blobAccess instance d s = (Some e, s)
          \<and> (\<forall>digests. d \<in> set digests \<longrightarrow>
               (\<exists>e'. merkleBlobAccess_FindMissing dff blobAccess instance digests s = (([], Some e'), s)
                     \<and> status_Code e' = InvalidArgument))"
      by (intro conjI)
  qed
  from A B C show ?thesis by (intro conjI)
qed

lemma example_dff_codes: "\<forall>n e. example_dff n = Inl e \<longrightarrow> status_Code e = InvalidArgument"
  by (auto simp: example_dff_def split: if_splits)

theorem validateDigest_rejects_with_InvalidArgument_witness:
  "validateDigest example_dff \<lparr>Hash = ''0a'', SizeBytes = 3\<rparr> = Inr sum_hash
   \<and> validateDigest example_dff \<lparr>Hash = ''0A'', SizeBytes = 3\<rparr> =
       Inl (status_error InvalidArgument ''Non-hexadecimal character in digest hash: %#U''
              [ArgRune CHR ''A''])
   \<and> merkleBlobAccess_Put example_dff example_BlobAccess ''inst'' \<lparr>Hash = ''0A'', SizeBytes = 3\<rparr> 3
        (bytes_NewReader [1, 2]) example_store0 =
       Returns ((Some (status_error InvalidArgument ''Non-hexadecimal character in digest hash: %#U''
                         [ArgRune CHR ''A'']),
                 (bytes_NewReader [1, 2])\<lparr>rc_state := ([1, 2], True)\<rparr>), example_store0)
   \<and> fst (merkleBlobAccess_Delete example_dff example_BlobAccess ''inst''
             \<lparr>Hash = ''0a'', SizeBytes = - 1\<rparr> example_store0) =
       Some (status_error InvalidArgument ''Invalid digest size: %d bytes'' [ArgInt (- 1)])
   \<and> fst (merkleBlobAccess_FindMissing example_dff example_BlobAccess ''inst''
             [\<lparr>Hash = ''0a'', SizeBytes = 3\<rparr>, \<lparr>Hash = ''0a0'', SizeBytes = 3\<rparr>] example_store0) =
       ([], Some (status_error InvalidArgument ''Unknown digest hash length: %d characters'' [ArgInt 3]))"
proof -
  let ?bad = "status_error InvalidArgument ''Non-hexadecimal character in digest hash: %#U''
              [ArgRune CHR ''A'']"
  have v1: "validateDigest example_dff \<lparr>Hash = ''0A'', SizeBytes = 3\<rparr> = Inl ?bad"
    by (simp add: validateDigest_def example_dff_def)
  have v2: "validateDigest example_dff \<lparr>Hash = ''0a'', SizeBytes = - 1\<rparr> =
      Inl (status_error InvalidArgument ''Invalid digest size: %d bytes'' [ArgInt (- 1)])"
    by (simp add: validateDigest_def example_dff_def)
  have v3: "validateDigest example_dff \<lparr>Hash = ''0a0'', SizeBytes = 3\<rparr> =
      Inl (status_error InvalidArgument ''Unknown digest hash length: %d characters'' [ArgInt 3])"
    by (simp add: validateDigest_def example_dff_def)
  note T = validateDigest_rejects_with_InvalidArgument[OF example_dff_codes]
  have A: "validateDigest example_dff \<lparr>Hash = ''0a'', SizeBytes = 3\<rparr> = Inr sum_hash"
    by (rule T[THEN conjunct1, THEN iffD2]) (simp add: example_dff_def lower_hex_def)
  note T1 = T[THEN conjunct2, THEN conjunct2, THEN mp, OF v1]
  have B: "merkleBlobAccess_Put example_dff example_BlobAccess ''inst'' \<lparr>Hash = ''0A'', SizeBytes = 3\<rparr> 3
        (bytes_NewReader [1, 2]) example_store0 =
       Returns ((Some ?bad, (bytes_NewReader [1, 2])\<lparr>rc_state := ([1, 2], True)\<rparr>), example_store0)"
    using T1[THEN conjunct2, THEN conjunct2, THEN conjunct1,
        of example_BlobAccess "''inst''" 3 "bytes_NewReader [1, 2]" example_store0]
    by (simp add: io_Close_def bytes_NewReader_def bytes_Reader_Close_def)
  note T2 = T[THEN conjunct2, THEN conjunct2, THEN mp, OF v2]
  have C: "fst (merkleBlobAccess_Delete example_dff example_BlobAccess ''inst''
             \<lparr>Hash = ''0a'', SizeBytes = - 1\<rparr> example_store0) =
       Some (status_error InvalidArgument ''Invalid digest size: %d bytes'' [ArgInt (- 1)])"
    using T2[THEN conjunct2, THEN conjunct2, THEN conjunct2, THEN conjunct1,
        of example_BlobAccess "''inst''" example_store0]
    by simp
  have D: "fst (merkleBlobAccess_FindMissing example_dff example_BlobAccess ''inst''
             [\<lparr>Hash = ''0a'', SizeBytes = 3\<rparr>, \<lparr>Hash = ''0a0'', SizeBytes = 3\<rparr>] example_store0) =
       ([], Some (status_error InvalidArgument ''Unknown digest hash length: %d characters'' [ArgInt 3]))"
    by (simp add: merkleBlobAccess_FindMissing_def validateDigest_def example_dff_def)
  from v1 A B C D show ?thesis by (intro conjI)
qed

section \<open>Corruption found by the integrity adapter\<close>

lemma Read_keeps_fields:
  "errorCode (fst (snd (checksumValidatingReader_Read r plen w))) = errorCode r \<and>
   invalidator (fst (snd (checksumValidatingReader_Read r plen w))) = invalidator r \<and>
   expectedChecksum (fst (snd (checksumValidatingReader_Read r plen w))) = expectedChecksum r"
  by (simp add: checksumValidatingReader_Read_def Let_def split: prod.splits)

lemma Reads_keeps_fields:
  "checksumValidatingReader_Reads r ps w = (rs, r', w') \<Longrightarrow>
   errorCode r' = errorCode r \<and> invalidator r' = invalidator r \<and>
   expectedChecksum r' = expectedChecksum r"
proof (induction ps arbitrary: r w rs)
  case Nil
  then show ?case by simp
next
  case (Cons p ps)
  obtain res r1 w1 where st: "checksumValidatingReader_Read r p w = (res, r1, w1)"
    by (cases "checksumValidatingReader_Read r p w") auto
  obtain rs2 where "checksumValidatingReader_Reads r1 ps w1 = (rs2, r', w')"
    using Cons.prems st by (auto split: prod.splits)
  from Cons.IH[OF this] Read_keeps_fields[of r p w] st show ?case by simp
qed

lemma Read_on_mismatch:
  assumes rd: "io_Read (ReadCloser r) plen = ((dat, err), rc1)"
      and mm: "size_or_hash_mismatch r dat err"
  shows "(\<exists>m a. fst (checksumValidatingReader_Read r plen w) =
              ([], Some (status_error (errorCode r) m a))) \<and>
         snd (snd (checksumValidatingReader_Read r plen w)) = invalidator r w"
proof -
  consider (longer) "sizeLeft r < int (length dat)"
    | (shorter) "err = Some io_EOF" "int (length dat) < sizeLeft r"
    | (hash) "err = Some io_EOF" "int (length dat) = sizeLeft r"
        "hash_fn (partialChecksum r) (hash_written (partialChecksum r) @ dat) \<noteq> expectedChecksum r"
    using mm unfolding size_or_hash_mismatch_def by linarith
  then show ?thesis
  proof cases
    case longer
    from Read_longer[OF rd longer, of w] show ?thesis by simp
  next
    case shorter
    from Read_shorter[OF rd[unfolded shorter(1)] shorter(2), of w] show ?thesis by simp
  next
    case hash
    from Read_mismatch[OF rd[unfolded hash(1)] hash(2,3), of w] show ?thesis by simp
  qed
qed

text \<open>
  Claim C2. For a digest that passes validation, \<^verbatim>\<open>Get\<close> returns the verifying reader
  around the stream of the wrapped store, expecting the size and the hash of the digest
  (for a digest that fails validation it returns the error and leaves the store alone).
  When a read of that reader finds a size or hash mismatch (after any earlier reads),
  the read fails with an error of code Internal and \<^verbatim>\<open>Delete\<close> of the wrapped store is
  called once for the instance and digest, its outcome logged whether it failed or not.
  \<^verbatim>\<open>Put\<close> hands the wrapped store a verifying reader around the supplied one; when a
  read of that reader finds the same mismatch, the read fails with an error of code
  InvalidArgument and the world, the wrapped store in it, is left as it was.
\<close>

theorem merkle_corruption_invalidates:
  "(validateDigest dff digest = Inr digestFormat \<longrightarrow>
      (\<exists>r0. merkleBlobAccess_Get dff blobAccess instance digest s0 =
               (ValidatingReader r0, snd (ba_Get blobAccess instance digest s0)) \<and>
            ReadCloser r0 = fst (ba_Get blobAccess instance digest s0) \<and>
            expectedChecksum r0 = fst (hex_DecodeString (Hash digest)) \<and>
            partialChecksum r0 = hash_New digestFormat \<and>
            sizeLeft r0 = SizeBytes digest \<and>
            (\<forall>ps w0 rs r s lg plen dat err rc1.
               checksumValidatingReader_Reads r0 ps w0 = (rs, r, (s, lg)) \<and>
               io_Read (ReadCloser r) plen = ((dat, err), rc1) \<and>
               size_or_hash_mismatch r dat err \<longrightarrow>
                 (\<exists>m a. fst (checksumValidatingReader_Read r plen (s, lg)) =
                           ([], Some (status_error Internal m a))) \<and>
                 snd (snd (checksumValidatingReader_Read r plen (s, lg))) =
                   (case ba_Delete blobAccess instance digest s of
                      (None, s') \<Rightarrow>
                        (s', lg @ [(''Successfully deleted corrupted blob %s'', [LogDigest digest])])
                    | (Some e, s') \<Rightarrow>
                        (s', lg @ [(''Failed to delete corrupted blob %s: %s'',
                                    [LogDigest digest, LogError e])])))))
   \<and> (validateDigest dff digest = Inl verr \<longrightarrow>
        merkleBlobAccess_Get dff blobAccess instance digest s0 = (ErrorReader verr, s0))
   \<and> (validateDigest dff' digest' = Inr digestFormat' \<and> SizeBytes digest' = sizeBytes \<longrightarrow>
        merkleBlobAccess_Put dff' blobAccess' instance' digest' sizeBytes rc' s' =
          (case ba_Put blobAccess' instance' digest' sizeBytes
                  (Put_checksumValidatingReader digest' digestFormat' rc') s' of
             ((e, r1), s1') \<Rightarrow> Returns ((e, ReadCloser r1), s1')))
   \<and> (checksumValidatingReader_Reads (Put_checksumValidatingReader digest' digestFormat' rc') ps' w0'
          = (rs', r', w') \<and>
      io_Read (ReadCloser r') plen' = ((dat', err'), rc1') \<and> size_or_hash_mismatch r' dat' err' \<longrightarrow>
        (\<exists>m a. fst (checksumValidatingReader_Read r' plen' w') =
                  ([], Some (status_error InvalidArgument m a))) \<and>
        snd (snd (checksumValidatingReader_Read r' plen' w')) = w')"
proof -
  have G: "validateDigest dff digest = Inr digestFormat \<longrightarrow>
      (\<exists>r0. merkleBlobAccess_Get dff blobAccess instance digest s0 =
               (ValidatingReader r0, snd (ba_Get blobAccess instance digest s0)) \<and>
            ReadCloser r0 = fst (ba_Get blobAccess instance digest s0) \<and>
            expectedChecksum r0 = fst (hex_DecodeString (Hash digest)) \<and>
            partialChecksum r0 = hash_New digestFormat \<and>
            sizeLeft r0 = SizeBytes digest \<and>
            (\<forall>ps w0 rs r s lg plen dat err rc1.
               checksumValidatingReader_Reads r0 ps w0 = (rs, r, (s, lg)) \<and>
               io_Read (ReadCloser r) plen = ((dat, err), rc1) \<and>
               size_or_hash_mismatch r dat err \<longrightarrow>
                 (\<exists>m a. fst (checksumValidatingReader_Read r plen (s, lg)) =
                           ([], Some (status_error Internal m a))) \<and>
                 snd (snd (checksumValidatingReader_Read r plen (s, lg))) =
                   (case ba_Delete blobAccess instance digest s of
                      (None, s') \<Rightarrow>
                        (s', lg @ [(''Successfully deleted corrupted blob %s'', [LogDigest digest])])
                    | (Some e, s') \<Rightarrow>
                        (s', lg @ [(''Failed to delete corrupted blob %s: %s'',
                                    [LogDigest digest, LogError e])]))))"
  proof
    assume v: "validateDigest dff digest = Inr digestFormat"
    let ?r0 = "Get_checksumValidatingReader blobAccess instance digest digestFormat
                 (fst (ba_Get blobAccess instance digest s0))"
    have get: "merkleBlobAccess_Get dff blobAccess instance digest s0 =
               (ValidatingReader ?r0, snd (ba_Get blobAccess instance digest s0))"
      using v by (simp add: merkleBlobAccess_Get_def split: prod.splits)
    have fields: "ReadCloser ?r0 = fst (ba_Get blobAccess instance digest s0)"
      "expectedChecksum ?r0 = fst (hex_DecodeString (Hash digest))"
      "partialChecksum ?r0 = hash_New digestFormat"
      "sizeLeft ?r0 = SizeBytes digest"
      by (simp_all add: Get_checksumValidatingReader_def)
    have reads: "\<forall>ps w0 rs r s lg plen dat err rc1.
               checksumValidatingReader_Reads ?r0 ps w0 = (rs, r, (s, lg)) \<and>
               io_Read (ReadCloser r) plen = ((dat, err), rc1) \<and>
               size_or_hash_mismatch r dat err \<longrightarrow>
                 (\<exists>m a. fst (checksumValidatingReader_Read r plen (s, lg)) =
                           ([], Some (status_error Internal m a))) \<and>
                 snd (snd (checksumValidatingReader_Read r plen (s, lg))) =
                   (case ba_Delete blobAccess instance digest s of
                      (None, s') \<Rightarrow>
                        (s', lg @ [(''Successfully deleted corrupted blob %s'', [LogDigest digest])])
                    | (Some e, s') \<Rightarrow>
                        (s', lg @ [(''Failed to delete corrupted blob %s: %s'',
                                    [LogDigest digest, LogError e])]))"
    proof (intro allI impI)
      fix ps w0 rs r s lg plen dat err rc1
      assume h: "checksumValidatingReader_Reads ?r0 ps w0 = (rs, r, (s, lg)) \<and>
               io_Read (ReadCloser r) plen = ((dat, err), rc1) \<and>
               size_or_hash_mismatch r dat err"
      then have rds: "checksumValidatingReader_Reads ?r0 ps w0 = (rs, r, (s, lg))" by simp
      from Reads_keeps_fields[OF rds]
      have "errorCode r = errorCode ?r0" "invalidator r = invalidator ?r0" by simp_all
      then have ec: "errorCode r = Internal"
        and inv: "invalidator r = Get_invalidator blobAccess instance digest"
        by (simp_all add: Get_checksumValidatingReader_def)
      from h have rd: "io_Read (ReadCloser r) plen = ((dat, err), rc1)"
        and mm: "size_or_hash_mismatch r dat err" by simp_all
      from Read_on_mismatch[OF rd mm, of "(s, lg)"] ec
      have a: "\<exists>m a. fst (checksumValidatingReader_Read r plen (s, lg)) =
                ([], Some (status_error Internal m a))" by simp
      from Read_on_mismatch[OF rd mm, of "(s, lg)"] inv
      have b: "snd (snd (checksumValidatingReader_Read r plen (s, lg))) =
        (case ba_Delete blobAccess instance digest s of
           (None, s') \<Rightarrow>
             (s', lg @ [(''Successfully deleted corrupted blob %s'', [LogDigest digest])])
         | (Some e, s') \<Rightarrow>
             (s', lg @ [(''Failed to delete corrupted blob %s: %s'',
                         [LogDigest digest, LogError e])]))"
        by (simp add: Get_invalidator_def split: prod.splits option.splits)
      from a b show "(\<exists>m a. fst (checksumValidatingReader_Read r plen (s, lg)) =
                           ([], Some (status_error Internal m a))) \<and>
                 snd (snd (checksumValidatingReader_Read r plen (s, lg))) =
                   (case ba_Delete blobAccess instance digest s of
                      (None, s') \<Rightarrow>
                        (s', lg @ [(''Successfully deleted corrupted blob %s'', [LogDigest digest])])
                    | (Some e, s') \<Rightarrow>
                        (s', lg @ [(''Failed to delete corrupted blob %s: %s'',
                                    [LogDigest digest, LogError e])]))"
        by (rule conjI)
    qed
    show "\<exists>r0. merkleBlobAccess_Get dff blobAccess instance digest s0 =
               (ValidatingReader r0, snd (ba_Get blobAccess instance digest s0)) \<and>
            ReadCloser r0 = fst (ba_Get blobAccess instance digest s0) \<and>
            expectedChecksum r0 = fst (hex_DecodeString (Hash digest)) \<and>
            partialChecksum r0 = hash_New digestFormat \<and>
            sizeLeft r0 = SizeBytes digest \<and>
            (\<forall>ps w0 rs r s lg plen dat err rc1.
               checksumValidatingReader_Reads r0 ps w0 = (rs, r, (s, lg)) \<and>
               io_Read (ReadCloser r) plen = ((dat, err), rc1) \<and>
               size_or_hash_mismatch r dat err \<longrightarrow>
                 (\<exists>m a. fst (checksumValidatingReader_Read r plen (s, lg)) =
                           ([], Some (status_error Internal m a))) \<and>
                 snd (snd (checksumValidatingReader_Read r plen (s, lg))) =
                   (case ba_Delete blobAccess instance digest s of
                      (None, s') \<Rightarrow>
                        (s', lg @ [(''Successfully deleted corrupted blob %s'', [LogDigest digest])])
                    | (Some e, s') \<Rightarrow>
                        (s', lg @ [(''Failed to delete corrupted blob %s: %s'',
                                    [LogDigest digest, LogError e])])))"
      by (rule exI[of _ ?r0]) (intro conjI get fields reads)
  qed
  have E: "validateDigest dff digest = Inl verr \<longrightarrow>
        merkleBlobAccess_Get dff blobAccess instance digest s0 = (ErrorReader verr, s0)"
    by (simp add: merkleBlobAccess_Get_def)
  have P: "validateDigest dff' digest' = Inr digestFormat' \<and> SizeBytes digest' = sizeBytes \<longrightarrow>
        merkleBlobAccess_Put dff' blobAccess' instance' digest' sizeBytes rc' s' =
          (case ba_Put blobAccess' instance' digest' sizeBytes
                  (Put_checksumValidatingReader digest' digestFormat' rc') s' of
             ((e, r1), s1') \<Rightarrow> Returns ((e, ReadCloser r1), s1'))"
    by (auto simp: merkleBlobAccess_Put_def split: prod.splits)
  have Q: "checksumValidatingReader_Reads (Put_checksumValidatingReader digest' digestFormat' rc') ps' w0'
          = (rs', r', w') \<and>
      io_Read (ReadCloser r') plen' = ((dat', err'), rc1') \<and> size_or_hash_mismatch r' dat' err' \<longrightarrow>
        (\<exists>m a. fst (checksumValidatingReader_Read r' plen' w') =
                  ([], Some (status_error InvalidArgument m a))) \<and>
        snd (snd (checksumValidatingReader_Read r' plen' w')) = w'"
  proof
    assume h: "checksumValidatingReader_Reads (Put_checksumValidatingReader digest' digestFormat' rc') ps' w0'
          = (rs', r', w') \<and>
      io_Read (ReadCloser r') plen' = ((dat', err'), rc1') \<and> size_or_hash_mismatch r' dat' err'"
    then have rds: "checksumValidatingReader_Reads (Put_checksumValidatingReader digest' digestFormat' rc') ps' w0'
          = (rs', r', w')" by simp
    from Reads_keeps_fields[OF rds]
    have "errorCode r' = InvalidArgument" "invalidator r' = (\<lambda>w. w)"
      by (simp_all add: Put_checksumValidatingReader_def)
    moreover from h have rd: "io_Read (ReadCloser r') plen' = ((dat', err'), rc1')"
      and mm: "size_or_hash_mismatch r' dat' err'" by simp_all
    ultimately show "(\<exists>m a. fst (checksumValidatingReader_Read r' plen' w') =
                  ([], Some (status_error InvalidArgument m a))) \<and>
        snd (snd (checksumValidatingReader_Read r' plen' w')) = w'"
      using Read_on_mismatch[OF rd mm, of w'] by simp
  qed
  from G E P Q show ?thesis by (intro conjI)
qed

lemmas run_defs = example_defs example_digest_def example_store1_def example_store0_def
  example_BlobAccess_def example_Get_def example_Delete_def example_Put_def example_dff_def
  validateDigest_def fromHexChar_def hextable_def size_or_hash_mismatch_def
  Get_checksumValidatingReader_def Put_checksumValidatingReader_def Get_invalidator_def
  checksumValidatingReader_Read_def TeeReader_Read_def hash_Write_def hash_Sum_def
  merkleBlobAccess_Get_def merkleBlobAccess_Put_def

theorem merkle_corruption_invalidates_witness:
  "(case merkleBlobAccess_Get example_dff example_BlobAccess ''i'' example_digest example_store1 of
      (ErrorReader e, s1) \<Rightarrow> False
    | (ValidatingReader r0, s1) \<Rightarrow>
        s1 = example_store1 \<and>
        checksumValidatingReader_Reads r0 [4, 4] (s1, []) =
          ([([1, 2, 4], None),
            ([], Some (status_error Internal ''Checksum of blob is %s, while %s was expected''
                         [ArgStr ''07'', ArgStr ''06'']))],
           fst (snd (checksumValidatingReader_Reads r0 [4, 4] (s1, []))),
           (\<lparr>blobs = Map.empty, deleted = [example_digest]\<rparr>,
            [(''Successfully deleted corrupted blob %s'', [LogDigest example_digest])])))
   \<and> (case merkleBlobAccess_Put example_dff example_BlobAccess ''i'' example_digest 3
              (bytes_NewReader [1, 2, 4]) example_store0 of
         Fatal m \<Rightarrow> False
       | Returns ((e, rd), s) \<Rightarrow>
           e = Some (status_error InvalidArgument ''Checksum of blob is %s, while %s was expected''
                       [ArgStr ''07'', ArgStr ''06''])
           \<and> s = example_store0)"
proof -
  let ?R0 = "Get_checksumValidatingReader example_BlobAccess ''i'' example_digest sum_hash
                (bytes_NewReader [1, 2, 4])"
  let ?w = "(example_store1, []) :: example_store \<times> log"
  have v: "validateDigest example_dff example_digest = Inr sum_hash"
    by (simp add: run_defs)
  have g': "merkleBlobAccess_Get example_dff example_BlobAccess ''i'' example_digest example_store1 =
      (ValidatingReader ?R0, example_store1)"
    by (simp add: run_defs)
  note T = merkle_corruption_invalidates[THEN conjunct1, THEN mp, OF v,
      of example_BlobAccess "''i''" example_store1]
  from T obtain r0 where
    g: "merkleBlobAccess_Get example_dff example_BlobAccess ''i'' example_digest example_store1 =
          (ValidatingReader r0, snd (ba_Get example_BlobAccess ''i'' example_digest example_store1))" and
    inv: "\<forall>ps w0 rs r s lg plen dat err rc1.
               checksumValidatingReader_Reads r0 ps w0 = (rs, r, (s, lg)) \<and>
               io_Read (ReadCloser r) plen = ((dat, err), rc1) \<and>
               size_or_hash_mismatch r dat err \<longrightarrow>
                 (\<exists>m a. fst (checksumValidatingReader_Read r plen (s, lg)) =
                           ([], Some (status_error Internal m a))) \<and>
                 snd (snd (checksumValidatingReader_Read r plen (s, lg))) =
                   (case ba_Delete example_BlobAccess ''i'' example_digest s of
                      (None, s') \<Rightarrow>
                        (s', lg @ [(''Successfully deleted corrupted blob %s'',
                                    [LogDigest example_digest])])
                    | (Some e, s') \<Rightarrow>
                        (s', lg @ [(''Failed to delete corrupted blob %s: %s'',
                                    [LogDigest example_digest, LogError e])]))"
    by blast
  from g g' have r0: "r0 = ?R0" by simp
  define r1 where "r1 = fst (snd (checksumValidatingReader_Read ?R0 4 ?w))"
  have first: "checksumValidatingReader_Read ?R0 4 ?w = (([1, 2, 4], None), r1, ?w)"
    unfolding r1_def by (simp add: run_defs)
  have pre: "checksumValidatingReader_Reads r0 [4] ?w = ([([1, 2, 4], None)], r1, ?w)"
    unfolding r0 by (simp add: first)
  have rd: "io_Read (ReadCloser r1) 4 = (([], Some io_EOF), ReadCloser r1)"
    unfolding r1_def by (simp add: run_defs)
  have mm: "size_or_hash_mismatch r1 [] (Some io_EOF)"
    unfolding r1_def by (simp add: run_defs)
  note G = inv[rule_format, OF conjI[OF pre conjI[OF rd mm]]]
  have A: "fst (checksumValidatingReader_Read r1 4 ?w) =
     ([], Some (status_error Internal ''Checksum of blob is %s, while %s was expected''
                  [ArgStr ''07'', ArgStr ''06'']))"
    using G unfolding r1_def by (simp add: run_defs)
  have B: "snd (snd (checksumValidatingReader_Read r1 4 ?w)) =
     (\<lparr>blobs = Map.empty, deleted = [example_digest]\<rparr>,
      [(''Successfully deleted corrupted blob %s'', [LogDigest example_digest])])"
    using G by (simp add: example_BlobAccess_def example_Delete_def example_store1_def
        example_digest_def)
  have run: "checksumValidatingReader_Reads ?R0 [4, 4] ?w =
          ([([1, 2, 4], None),
            ([], Some (status_error Internal ''Checksum of blob is %s, while %s was expected''
                         [ArgStr ''07'', ArgStr ''06'']))],
           fst (snd (checksumValidatingReader_Reads ?R0 [4, 4] ?w)),
           (\<lparr>blobs = Map.empty, deleted = [example_digest]\<rparr>,
            [(''Successfully deleted corrupted blob %s'', [LogDigest example_digest])]))"
    using A B by (auto simp: first split: prod.splits)
  have C: "(case merkleBlobAccess_Put example_dff example_BlobAccess ''i'' example_digest 3
              (bytes_NewReader [1, 2, 4]) example_store0 of
         Fatal m \<Rightarrow> False
       | Returns ((e, rd), s) \<Rightarrow>
           e = Some (status_error InvalidArgument ''Checksum of blob is %s, while %s was expected''
                       [ArgStr ''07'', ArgStr ''06''])
           \<and> s = example_store0)"
    by (simp add: run_defs)
  have D: "(case merkleBlobAccess_Get example_dff example_BlobAccess ''i'' example_digest example_store1 of
      (ErrorReader e, s1) \<Rightarrow> False
    | (ValidatingReader r0, s1) \<Rightarrow>
        s1 = example_store1 \<and>
        checksumValidatingReader_Reads r0 [4, 4] (s1, []) =
          ([([1, 2, 4], None),
            ([], Some (status_error Internal ''Checksum of blob is %s, while %s was expected''
                         [ArgStr ''07'', ArgStr ''06'']))],
           fst (snd (checksumValidatingReader_Reads r0 [4, 4] (s1, []))),
           (\<lparr>blobs = Map.empty, deleted = [example_digest]\<rparr>,
            [(''Successfully deleted corrupted blob %s'', [LogDigest example_digest])])))"
    unfolding g' using run by simp
  from D C show ?thesis by (rule conjI)
qed

section \<open>The sharding adapter\<close>

lemma getBackend_hash_fold:
  "getBackend_hash h cs = fold (\<lambda>c h. (h XOR scast c) * 1099511628211) cs h"
  by (induction cs arbitrary: h) simp_all

lemma GetShard_from_skips:
  assumes "i \<le> k"
      and "\<forall>j. i \<le> j \<and> j < k \<longrightarrow>
             0 \<le> cand j \<and> cand j < int (length bs) \<and> bs ! nat (cand j) = None"
      and "0 \<le> cand k \<and> cand k < int (length bs) \<and> bs ! nat (cand k) = Some b"
  shows "GetShard_from cand (getBackend_selector bs) i st = Some (Inr (Some b))"
  using assms
proof (induction "k - i" arbitrary: i st)
  case 0
  then have "i = k" by simp
  then show ?case
    using "0.prems"(3)
    by (subst GetShard_from.simps) (simp add: getBackend_selector_def)
next
  case (Suc n)
  then have lt: "i < k" by simp
  then have dr: "0 \<le> cand i \<and> cand i < int (length bs) \<and> bs ! nat (cand i) = None"
    using Suc.prems(2) by simp
  have "GetShard_from cand (getBackend_selector bs) (Suc i) None = Some (Inr (Some b))"
    by (rule Suc.hyps(1)) (use Suc.hyps(2) Suc.prems lt in auto)
  then show ?case
    using dr by (subst GetShard_from.simps) (simp add: getBackend_selector_def)
qed








text \<open>
  Claim C4. The back end that \<^verbatim>\<open>getBackend\<close> chooses is a function of the key of the digest
  and of the adapter's shape. The key is hashed with FNV-1a from the configured
  initialization constant with the prime 1099511628211; the selector is asked with a
  predicate that answers for a slot whether its entry of \<^verbatim>\<open>backends\<close> is nil; when the
  first candidates of the selector for that hash are drained slots and the next one is
  live, \<^verbatim>\<open>getBackend\<close> returns the back end of that live slot; every repetition of
  the call chooses the same back end; and a call for any digest with the same key, on
  an adapter with the same initialization constant, selector and back ends, chooses as
  this one does.
\<close>

theorem getBackend_routes_to_first_live_candidate:
  assumes h: "h = getBackend_hash (hashInitialization ba) (GetKey digest (digestKeyFormat ba))"
      and drained: "\<forall>j<k. 0 \<le> shardSelector ba h j \<and> shardSelector ba h j < int (length (backends ba)) \<and>
                      backends ba ! nat (shardSelector ba h j) = None"
      and live: "0 \<le> shardSelector ba h k \<and> shardSelector ba h k < int (length (backends ba)) \<and>
                      backends ba ! nat (shardSelector ba h k) = Some b"
  shows "h = fold (\<lambda>c x. (x XOR scast c) * 1099511628211) (GetKey digest (digestKeyFormat ba))
               (hashInitialization ba)
       \<and> (\<forall>index st. 0 \<le> index \<and> index < int (length (backends ba)) \<longrightarrow>
             getBackend_selector (backends ba) index st =
               Inr (backends ba ! nat index = None, backends ba ! nat index))
       \<and> getBackend GetKey ba digest = Some (Inr (Some b))
       \<and> list_all (\<lambda>r. r = Some (Inr (Some b))) (map (getBackend GetKey ba) (replicate n digest))
       \<and> (GetKey' digest' (digestKeyFormat ba') = GetKey digest (digestKeyFormat ba) \<and>
          hashInitialization ba' = hashInitialization ba \<and> shardSelector ba' = shardSelector ba \<and>
          backends ba' = backends ba \<longrightarrow>
            getBackend GetKey' ba' digest' = getBackend GetKey ba digest)"
proof -
  have A: "h = fold (\<lambda>c x. (x XOR scast c) * 1099511628211) (GetKey digest (digestKeyFormat ba))
               (hashInitialization ba)"
    unfolding h by (rule getBackend_hash_fold)
  have B: "\<forall>index st. 0 \<le> index \<and> index < int (length (backends ba)) \<longrightarrow>
             getBackend_selector (backends ba) index st =
               Inr (backends ba ! nat index = None, backends ba ! nat index)"
    by (simp add: getBackend_selector_def Let_def)
  have "GetShard_from (shardSelector ba h) (getBackend_selector (backends ba)) 0 None =
          Some (Inr (Some b))"
    by (rule GetShard_from_skips[where k = k]) (use drained live in simp_all)
  then have C: "getBackend GetKey ba digest = Some (Inr (Some b))"
    by (simp add: getBackend_def GetShard_def h)
  then have D: "list_all (\<lambda>r. r = Some (Inr (Some b))) (map (getBackend GetKey ba) (replicate n digest))"
    by (simp add: list_all_iff)
  have E: "GetKey' digest' (digestKeyFormat ba') = GetKey digest (digestKeyFormat ba) \<and>
          hashInitialization ba' = hashInitialization ba \<and> shardSelector ba' = shardSelector ba \<and>
          backends ba' = backends ba \<longrightarrow>
            getBackend GetKey' ba' digest' = getBackend GetKey ba digest"
    by (simp add: getBackend_def)
  from A B C D E show ?thesis by (intro conjI)
qed

theorem getBackend_routes_to_first_live_candidate_witness:
  "getBackend example_GetKey example_sharding ''abc'' = Some (Inr (Some ''A''))
   \<and> getBackend_hash 14695981039346656037 (example_GetKey ''a'' ()) = 12638187200555641996"
proof -
  have "getBackend example_GetKey example_sharding ''abc'' = Some (Inr (Some ''A''))"
    by (rule getBackend_routes_to_first_live_candidate[where k = 1 and n = 0,
          OF refl, THEN conjunct2, THEN conjunct2, THEN conjunct1])
       (simp_all add: example_sharding_def)
  moreover have "getBackend_hash 14695981039346656037 (example_GetKey ''a'' ()) = 12638187200555641996"
    by (simp add: example_GetKey_def)
  ultimately show ?thesis by (intro conjI)
qed









section \<open>The HTTP cache back end\<close>

text \<open>What holds of claim C8: the requests that are issued, and the mapping of the status
  in \<^verbatim>\<open>Get\<close> and \<^verbatim>\<open>FindMissing\<close>; \<^verbatim>\<open>Delete\<close> always fails with Unimplemented.\<close>

lemma remoteBlobAccess_Get_status:
  assumes "client \<lparr>Method = ''GET'', URL = address ba @ ''/'' @ prefix ba @ ''/'' @ Hash digest,
                    RequestBody = None, ContentLength = 0\<rparr> h = (Inr resp, h1)"
  shows "remoteBlobAccess_Get client StatusText ba instance digest h =
           (if StatusCode resp = 404
            then Inl (status_error NotFound (address ba @ ''/'' @ prefix ba @ ''/'' @ Hash digest) [])
            else if StatusCode resp = 200 then Inr (Body resp)
            else Inl (status_error Unknown ''Unexpected status code from remote cache: %d - %s''
                        [ArgInt (StatusCode resp), ArgStr (StatusText (StatusCode resp))]), h1)"
  using assms
  by (simp add: remoteBlobAccess_Get_def remote_url_def convertHTTPUnexpectedStatus_def)

lemma remoteBlobAccess_FindMissing_step:
  assumes "client \<lparr>Method = ''HEAD'', URL = address ba @ ''/'' @ prefix ba @ ''/'' @ Hash digest,
                    RequestBody = None, ContentLength = 0\<rparr> h = (Inr resp, h1)"
  shows "remoteBlobAccess_FindMissing_loop client StatusText ba (digest # digests) missing h =
           (if StatusCode resp = 404
            then remoteBlobAccess_FindMissing_loop client StatusText ba digests (missing @ [digest]) h1
            else if StatusCode resp = 200
            then remoteBlobAccess_FindMissing_loop client StatusText ba digests missing h1
            else (([], Some (status_error Unknown ''Unexpected status code from remote cache: %d - %s''
                        [ArgInt (StatusCode resp), ArgStr (StatusText (StatusCode resp))])), h1))"
  using assms by (simp add: remote_url_def convertHTTPUnexpectedStatus_def)

lemma remoteBlobAccess_Delete_Unimplemented:
  "\<exists>m. remoteBlobAccess_Delete ba instance digest = Some (status_error Unimplemented m [])"
  by (simp add: remoteBlobAccess_Delete_def)

text \<open>\<^verbatim>\<open>Put\<close> discards the response: whatever its status, the error returned is nil.\<close>

lemma remoteBlobAccess_Put_any_status:
  assumes "NewRequest_error (address ba @ ''/'' @ prefix ba @ ''/'' @ Hash digest) = None"
      and "client \<lparr>Method = ''PUT'', URL = address ba @ ''/'' @ prefix ba @ ''/'' @ Hash digest,
                    RequestBody = Some r, ContentLength = sizeBytes\<rparr> h = (Inr resp, h1)"
  shows "remoteBlobAccess_Put client NewRequest_error ba instance digest sizeBytes r h =
           ((None, r), h1)"
  using assms by (simp add: remoteBlobAccess_Put_def remote_url_def)

text \<open>
  Claim C8, the part about \<^verbatim>\<open>Put\<close>, at a server that answers 500 to every request:
  \<^verbatim>\<open>Put\<close> issues \<^verbatim>\<open>PUT http://cache/cas/06\<close> and returns no error, where \<^verbatim>\<open>Get\<close> and
  \<^verbatim>\<open>FindMissing\<close> at the same server fail with code Unknown and the status text.
\<close>

theorem remoteBlobAccess_Put_ignores_status:
  "remoteBlobAccess_Put (example_http 500) (\<lambda>url. None) example_remote ''i'' example_digest 3
      (bytes_NewReader [1, 2, 3]) [] =
     ((None, bytes_NewReader [1, 2, 3]), [(''PUT'', ''http://cache/cas/06'')])
   \<and> remoteBlobAccess_Get (example_http 500) example_StatusText example_remote ''i'' example_digest [] =
     (Inl (status_error Unknown ''Unexpected status code from remote cache: %d - %s''
             [ArgInt 500, ArgStr ''Internal Server Error'']),
      [(''GET'', ''http://cache/cas/06'')])
   \<and> remoteBlobAccess_FindMissing (example_http 500) example_StatusText example_remote ''i''
        [example_digest] [] =
     (([], Some (status_error Unknown ''Unexpected status code from remote cache: %d - %s''
             [ArgInt 500, ArgStr ''Internal Server Error''])),
      [(''HEAD'', ''http://cache/cas/06'')])"
  by (simp add: remoteBlobAccess_Put_def remoteBlobAccess_Get_def remoteBlobAccess_FindMissing_def
      remote_url_def convertHTTPUnexpectedStatus_def example_http_def example_StatusText_def
      example_remote_def example_digest_def)

section \<open>\<^verbatim>\<open>FindMissing\<close> of an empty list\<close>

text \<open>
  Claim C9 as stated fails at the Redis store: with a context that is already
  cancelled, \<^verbatim>\<open>FindMissing\<close> of the empty list returns the context's error.
\<close>

theorem redisBlobAccess_FindMissing_empty_cancelled:
  "redisBlobAccess_FindMissing example_blobKeyer (Some context_Canceled) ''i'' [] example_redis
     = (([], Some context_Canceled), example_redis)
   \<and> redisBlobAccess_FindMissing example_blobKeyer (Some context_Canceled) ''i'' [] example_redis
     \<noteq> (([], None), example_redis)"
  by (simp add: redisBlobAccess_FindMissing_def)

text \<open>
  Claim C9, amended. In the relay, and in the Redis store when the context of the call
  is not done, \<^verbatim>\<open>FindMissing\<close> of the empty list returns the empty list and no error
  and leaves the state of the back end as it was, the record of the pipelines executed
  and of the requests served included: whatever that state is. In the Redis store with
  a context that is done it returns that context's error, again without contacting
  Redis.
\<close>

theorem FindMissing_empty_contacts_nothing:
  "(ctx_Err = None \<longrightarrow>
      redisBlobAccess_FindMissing blobKeyer ctx_Err instance [] c = (([], None), c))
   \<and> (ctx_Err = Some e \<longrightarrow>
      redisBlobAccess_FindMissing blobKeyer ctx_Err instance [] c = (([], Some e), c))
   \<and> contentAddressableStorageBlobAccess_FindMissing FindMissingBlobs NewDigest [] s
        = (([], None), s)"
  by (simp add: redisBlobAccess_FindMissing_def contentAddressableStorageBlobAccess_FindMissing_def)

theorem FindMissing_empty_contacts_nothing_witness:
  "redisBlobAccess_FindMissing example_blobKeyer None ''i'' [] example_redis
     = (([], None), example_redis)
   \<and> redisBlobAccess_FindMissing example_blobKeyer (Some context_DeadlineExceeded) ''i'' []
        example_redis = (([], Some context_DeadlineExceeded), example_redis)
   \<and> contentAddressableStorageBlobAccess_FindMissing example_FindMissingBlobs example_NewDigest [] []
        = (([], None), [])
   \<and> snd (redisBlobAccess_FindMissing example_blobKeyer None ''i'' [example_digest] example_redis)
        = example_redis\<lparr>executed := [[EXISTS ''06'']]\<rparr>"
proof -
  note T = FindMissing_empty_contacts_nothing[where blobKeyer = example_blobKeyer
      and c = example_redis
      and FindMissingBlobs = example_FindMissingBlobs and NewDigest = example_NewDigest
      and s = "[]"]
  have A: "redisBlobAccess_FindMissing example_blobKeyer None ''i'' [] example_redis
     = (([], None), example_redis)"
    using T[where ctx_Err = None] by simp
  have B: "redisBlobAccess_FindMissing example_blobKeyer (Some context_DeadlineExceeded) ''i'' []
        example_redis = (([], Some context_DeadlineExceeded), example_redis)"
    using T[where ctx_Err = "Some context_DeadlineExceeded" and e = context_DeadlineExceeded] by simp
  have C: "contentAddressableStorageBlobAccess_FindMissing example_FindMissingBlobs example_NewDigest [] []
        = (([], None), [])"
    using T by simp
  have D: "snd (redisBlobAccess_FindMissing example_blobKeyer None ''i'' [example_digest] example_redis)
        = example_redis\<lparr>executed := [[EXISTS ''06'']]\<rparr>"
    by (simp add: redisBlobAccess_FindMissing_def example_blobKeyer_def example_digest_def
        pipeline_Exec_def example_redis_def)
  from A B C D show ?thesis by (intro conjI)
qed

section \<open>Resource names\<close>

lemma FieldsFunc_loop_segments:
  "FieldsFunc_loop (\<lambda>r. r = CHR ''/'') cur s = filter (\<lambda>x. x \<noteq> []) (segments_from cur s)"
  by (induction s arbitrary: cur) simp_all

lemma FieldsFunc_nonempty_segments:
  "FieldsFunc s (\<lambda>r. r = CHR ''/'') = nonempty_segments s"
  by (simp add: FieldsFunc_def nonempty_segments_def segments_def FieldsFunc_loop_segments)

lemma is_digit_range: "is_digit c \<longleftrightarrow> 48 \<le> (of_char c :: nat) \<and> (of_char c :: nat) \<le> 57"
proof
  assume "is_digit c"
  then show "48 \<le> (of_char c :: nat) \<and> (of_char c :: nat) \<le> 57"
    unfolding is_digit_def by auto
next
  let ?n = "of_char c :: nat"
  assume "48 \<le> ?n \<and> ?n \<le> 57"
  then have "?n = of_char CHR ''0'' \<or> ?n = of_char CHR ''1'' \<or> ?n = of_char CHR ''2'' \<or>
      ?n = of_char CHR ''3'' \<or> ?n = of_char CHR ''4'' \<or> ?n = of_char CHR ''5'' \<or>
      ?n = of_char CHR ''6'' \<or> ?n = of_char CHR ''7'' \<or> ?n = of_char CHR ''8'' \<or>
      ?n = of_char CHR ''9''"
    by simp arith
  then have "c = CHR ''0'' \<or> c = CHR ''1'' \<or> c = CHR ''2'' \<or> c = CHR ''3'' \<or> c = CHR ''4'' \<or>
      c = CHR ''5'' \<or> c = CHR ''6'' \<or> c = CHR ''7'' \<or> c = CHR ''8'' \<or> c = CHR ''9''"
    by (simp only: of_char_eq_iff)
  then show "is_digit c" unfolding is_digit_def by simp
qed

lemma digits_from_ge: "n \<le> digits_from n ds"
proof (induction ds arbitrary: n)
  case Nil
  then show ?case by (simp add: digits_from_def)
next
  case (Cons c cs)
  have "n \<le> n * 10 + ((of_char c :: nat) - 48)" by simp
  also have "\<dots> \<le> digits_from (n * 10 + ((of_char c :: nat) - 48)) cs" by (rule Cons.IH)
  finally show ?case by (simp add: digits_from_def)
qed

lemma ParseUint_loop_digits:
  assumes "list_all is_digit ds"
  shows "ParseUint_loop n ds =
           (if ds \<noteq> [] \<and> digits_from n ds \<ge> 2 ^ 64 then Inl ErrRange else Inr (digits_from n ds))"
  using assms
proof (induction ds arbitrary: n)
  case Nil
  then show ?case by (simp add: digits_from_def)
next
  case (Cons c cs)
  let ?v = "(of_char c :: nat) - 48"
  let ?n1 = "n * 10 + ?v"
  have dig: "48 \<le> (of_char c :: nat) \<and> (of_char c :: nat) \<le> 57"
    using Cons.prems by (simp add: is_digit_range)
  have rest: "list_all is_digit cs" using Cons.prems by simp
  have unfold: "digits_from n (c # cs) = digits_from ?n1 cs" by (simp add: digits_from_def)
  have ge: "?n1 \<le> digits_from ?n1 cs" by (rule digits_from_ge)
  show ?case
  proof (cases "n \<ge> 1844674407370955162")
    case True
    then have "?n1 \<ge> 2 ^ 64" by simp
    then have "digits_from n (c # cs) \<ge> 2 ^ 64" using ge unfold by linarith
    then show ?thesis using True dig by simp
  next
    case False
    show ?thesis
    proof (cases "?n1 \<ge> 2 ^ 64")
      case True
      then have "digits_from n (c # cs) \<ge> 2 ^ 64" using ge unfold by linarith
      then show ?thesis using True False dig by (simp add: Let_def)
    next
      case big: False
      have "ParseUint_loop n (c # cs) = ParseUint_loop ?n1 cs"
        using False big dig by (simp add: Let_def)
      also have "\<dots> = (if cs \<noteq> [] \<and> digits_from ?n1 cs \<ge> 2 ^ 64 then Inl ErrRange
                        else Inr (digits_from ?n1 cs))"
        by (rule Cons.IH[OF rest])
      finally show ?thesis
        using big unfold by (cases cs) (simp_all add: digits_from_def)
    qed
  qed
qed

lemma ParseUint_loop_nondigit:
  "\<not> list_all is_digit ds \<Longrightarrow> \<exists>e. ParseUint_loop n ds = Inl e"
proof (induction ds arbitrary: n)
  case Nil
  then show ?case by simp
next
  case (Cons c cs)
  let ?n1 = "n * 10 + ((of_char c :: nat) - 48)"
  show ?case
  proof (cases "is_digit c")
    case True
    then have "\<not> list_all is_digit cs" using Cons.prems by simp
    from Cons.IH[OF this] obtain e where e: "ParseUint_loop ?n1 cs = Inl e" by blast
    have dig: "48 \<le> (of_char c :: nat) \<and> (of_char c :: nat) \<le> 57"
      using True by (simp add: is_digit_range)
    have "ParseUint_loop n (c # cs) = Inl ErrRange \<or>
          ParseUint_loop n (c # cs) = ParseUint_loop ?n1 cs"
      using dig by (simp add: Let_def)
    with e show ?thesis by auto
  next
    case False
    then have nd: "\<not> (48 \<le> (of_char c :: nat) \<and> (of_char c :: nat) \<le> 57)"
      by (simp add: is_digit_range)
    have "ParseUint_loop n (c # cs) = Inl ErrSyntax"
      by (simp only: ParseUint_loop.simps nd if_False)
    then show ?thesis by blast
  qed
qed

lemma ParseUint_eq:
  "ParseUint ds = Inr m \<longleftrightarrow> ds \<noteq> [] \<and> list_all is_digit ds \<and> m = digits_value ds \<and> m < 2 ^ 64"
proof (cases "list_all is_digit ds")
  case True
  show ?thesis
    using ParseUint_loop_digits[OF True, of 0] True
    by (auto simp: ParseUint_def digits_from_def digits_value_def)
next
  case False
  then have "ds \<noteq> []" by auto
  with ParseUint_loop_nondigit[OF False, of 0] False show ?thesis
    by (auto simp: ParseUint_def)
qed

lemma ParseInt_unfold:
  "s \<noteq> [] \<Longrightarrow> ParseInt s =
     (case ParseUint (snd (sign_split s)) of
        Inl e \<Rightarrow> Inl e
      | Inr un \<Rightarrow>
          if \<not> fst (sign_split s) \<and> un \<ge> 2 ^ 63 then Inl ErrRange
          else if fst (sign_split s) \<and> un > 2 ^ 63 then Inl ErrRange
          else Inr (if fst (sign_split s) then - int un else int un))"
  by (cases s) (auto simp: ParseInt_def sign_split_def split: sum.splits)

lemma ParseInt_eq:
  "ParseInt s = Inr n \<longleftrightarrow> int64_decimal s \<and> n = decimal_value s"
proof (cases s)
  case Nil
  then show ?thesis
    by (simp add: ParseInt_def int64_decimal_def decimal_integer_def sign_split_def)
next
  case (Cons c cs)
  then have ne: "s \<noteq> []" by simp
  obtain neg s1 where sp: "sign_split s = (neg, s1)" by (cases "sign_split s")
  show ?thesis
  proof (cases "ParseUint s1")
    case (Inl e)
    then have "\<not> (s1 \<noteq> [] \<and> list_all is_digit s1 \<and> digits_value s1 < 2 ^ 64)"
      using ParseUint_eq[of s1 "digits_value s1"] by simp
    then have "\<not> int64_decimal s"
      using sp by (auto simp: int64_decimal_def decimal_integer_def decimal_value_def)
    moreover have "ParseInt s \<noteq> Inr n"
      using Inl sp by (simp add: ParseInt_unfold[OF ne])
    ultimately show ?thesis by simp
  next
    case (Inr un)
    then have un: "s1 \<noteq> []" "list_all is_digit s1" "un = digits_value s1" "un < 2 ^ 64"
      using ParseUint_eq[of s1 un] by simp_all
    have dec: "decimal_integer s" using un sp by (simp add: decimal_integer_def)
    have val: "decimal_value s = (if neg then - int un else int un)"
      using un sp by (simp add: decimal_value_def)
    have P: "ParseInt s = (if \<not> neg \<and> un \<ge> 2 ^ 63 then Inl ErrRange
                  else if neg \<and> un > 2 ^ 63 then Inl ErrRange
                  else Inr (if neg then - int un else int un))"
      using Inr sp by (simp add: ParseInt_unfold[OF ne])
    show ?thesis
    proof (cases neg)
      case True
      then show ?thesis using P dec val
        by (auto simp: int64_decimal_def)
    next
      case False
      then show ?thesis using P dec val
        by (auto simp: int64_decimal_def)
    qed
  qed
qed

lemma parseResourceNameRead_eq:
  "parseResourceNameRead s =
     (let fs = nonempty_segments s; l = length fs in
      if (l = 3 \<or> l = 4) \<and> fs ! (l - 3) = ''blobs'' \<and> int64_decimal (fs ! (l - 1))
      then (if l = 4 then fs ! 0 else [],
            Some \<lparr>Hash = fs ! (l - 2), SizeBytes = decimal_value (fs ! (l - 1))\<rparr>)
      else ([], None))"
proof -
  let ?fs = "nonempty_segments s"
  let ?l = "length ?fs"
  show ?thesis
  proof (cases "ParseInt (?fs ! (?l - 1))")
    case (Inl e)
    then have "\<not> int64_decimal (?fs ! (?l - 1))"
      using ParseInt_eq[of "?fs ! (?l - 1)" "decimal_value (?fs ! (?l - 1))"] by simp
    then show ?thesis using Inl
      by (simp add: parseResourceNameRead_def FieldsFunc_nonempty_segments Let_def)
  next
    case (Inr n)
    then have "int64_decimal (?fs ! (?l - 1))" "n = decimal_value (?fs ! (?l - 1))"
      using ParseInt_eq[of "?fs ! (?l - 1)" n] by simp_all
    then show ?thesis using Inr
      by (simp add: parseResourceNameRead_def FieldsFunc_nonempty_segments Let_def)
  qed
qed

lemma parseResourceNameWrite_eq:
  "parseResourceNameWrite s =
     (let fs = nonempty_segments s; l = length fs in
      if (l = 5 \<or> l = 6) \<and> fs ! (l - 5) = ''uploads'' \<and> fs ! (l - 3) = ''blobs''
         \<and> int64_decimal (fs ! (l - 1))
      then (if l = 6 then fs ! 0 else [],
            Some \<lparr>Hash = fs ! (l - 2), SizeBytes = decimal_value (fs ! (l - 1))\<rparr>)
      else ([], None))"
proof -
  let ?fs = "nonempty_segments s"
  let ?l = "length ?fs"
  show ?thesis
  proof (cases "ParseInt (?fs ! (?l - 1))")
    case (Inl e)
    then have "\<not> int64_decimal (?fs ! (?l - 1))"
      using ParseInt_eq[of "?fs ! (?l - 1)" "decimal_value (?fs ! (?l - 1))"] by simp
    then show ?thesis using Inl
      by (simp add: parseResourceNameWrite_def FieldsFunc_nonempty_segments Let_def)
  next
    case (Inr n)
    then have "int64_decimal (?fs ! (?l - 1))" "n = decimal_value (?fs ! (?l - 1))"
      using ParseInt_eq[of "?fs ! (?l - 1)" n] by simp_all
    then show ?thesis using Inr
      by (simp add: parseResourceNameWrite_def FieldsFunc_nonempty_segments Let_def)
  qed
qed

lemma nonempty_segments_all:
  "list_all (\<lambda>x. x \<noteq> []) (segments s) \<Longrightarrow> nonempty_segments s = segments s"
  by (simp add: nonempty_segments_def list_all_iff)

text \<open>
  Claim C6 as stated fails in both directions. A name with an empty segment is not of a
  documented form, and the parsers accept it: \<^verbatim>\<open>blobs//abc/5\<close> for reads, and
  \<^verbatim>\<open>/uploads/u/blobs/abc/5/\<close> for writes. And a name of the documented form whose size is
  a decimal integer outside the int64 range is rejected.
\<close>

theorem parseResourceName_accepts_undocumented:
  "parseResourceNameRead ''blobs//abc/5'' = ([], Some \<lparr>Hash = ''abc'', SizeBytes = 5\<rparr>)
   \<and> \<not> documented_read_form ''blobs//abc/5''
   \<and> parseResourceNameWrite ''/uploads/u/blobs/abc/5/'' = ([], Some \<lparr>Hash = ''abc'', SizeBytes = 5\<rparr>)
   \<and> \<not> documented_write_form ''/uploads/u/blobs/abc/5/''
   \<and> parseResourceNameRead ''blobs/abc/9223372036854775808'' = ([], None)
   \<and> documented_read_form ''blobs/abc/9223372036854775808''"
  by (simp add: parseResourceNameRead_def parseResourceNameWrite_def FieldsFunc_def ParseInt_def
      ParseUint_def documented_read_form_def documented_write_form_def segments_def
      decimal_integer_def sign_split_def is_digit_def)

text \<open>
  Claim C6, amended. The parsers look only at the segments of the name that are not
  empty (leading, trailing and repeated slashes are ignored). A read name is accepted
  exactly when there are 3 or 4 such segments, the third from the end is \<^verbatim>\<open>blobs\<close> and the
  last is a decimal integer, with or without a sign, in the int64 range; a write name
  exactly when there are 5 or 6, the fifth from the end is \<^verbatim>\<open>uploads\<close>, the third from
  the end is \<^verbatim>\<open>blobs\<close> and the last is such an integer. The instance is the first segment
  when there are 4 (6) and empty otherwise, the hash is the segment before the last, the
  size the value of the last. So every name of a documented form with a size in the
  int64 range is accepted, with the documented components. A rejected name makes
  \<^verbatim>\<open>Read\<close> (when \<^verbatim>\<open>read_offset\<close> and \<^verbatim>\<open>read_limit\<close> are 0) and \<^verbatim>\<open>Write\<close> fail with
  InvalidArgument.
\<close>

theorem parseResourceName_accepts_exactly:
  "parseResourceNameRead s =
     (let fs = nonempty_segments s; l = length fs in
      if (l = 3 \<or> l = 4) \<and> fs ! (l - 3) = ''blobs'' \<and> int64_decimal (fs ! (l - 1))
      then (if l = 4 then fs ! 0 else [],
            Some \<lparr>Hash = fs ! (l - 2), SizeBytes = decimal_value (fs ! (l - 1))\<rparr>)
      else ([], None))
   \<and> parseResourceNameWrite s =
     (let fs = nonempty_segments s; l = length fs in
      if (l = 5 \<or> l = 6) \<and> fs ! (l - 5) = ''uploads'' \<and> fs ! (l - 3) = ''blobs''
         \<and> int64_decimal (fs ! (l - 1))
      then (if l = 6 then fs ! 0 else [],
            Some \<lparr>Hash = fs ! (l - 2), SizeBytes = decimal_value (fs ! (l - 1))\<rparr>)
      else ([], None))
   \<and> (documented_read_form s \<and> int64_decimal (segments s ! (length (segments s) - 1)) \<longrightarrow>
        parseResourceNameRead s =
          (if length (segments s) = 4 then segments s ! 0 else [],
           Some \<lparr>Hash = segments s ! (length (segments s) - 2),
                 SizeBytes = decimal_value (segments s ! (length (segments s) - 1))\<rparr>))
   \<and> (documented_write_form s \<and> int64_decimal (segments s ! (length (segments s) - 1)) \<longrightarrow>
        parseResourceNameWrite s =
          (if length (segments s) = 6 then segments s ! 0 else [],
           Some \<lparr>Hash = segments s ! (length (segments s) - 2),
                 SizeBytes = decimal_value (segments s ! (length (segments s) - 1))\<rparr>))
   \<and> (snd (parseResourceNameRead (Read_ResourceName req)) = None \<and>
      ReadOffset req = 0 \<and> ReadLimit req = 0 \<longrightarrow>
        byteStreamServer_Read Get readChunkSize Send req w out =
          Some (Some (status_error InvalidArgument ''Invalid resource naming scheme'' []), w, out))
   \<and> (pending st = request # rest \<and> snd (parseResourceNameWrite (ResourceName request)) = None \<longrightarrow>
        byteStreamServer_Write Put st w' =
          (Some (status_error InvalidArgument ''Invalid resource naming scheme'' []), w'))"
proof -
  have C: "documented_read_form s \<and> int64_decimal (segments s ! (length (segments s) - 1)) \<longrightarrow>
        parseResourceNameRead s =
          (if length (segments s) = 4 then segments s ! 0 else [],
           Some \<lparr>Hash = segments s ! (length (segments s) - 2),
                 SizeBytes = decimal_value (segments s ! (length (segments s) - 1))\<rparr>)"
  proof
    assume h: "documented_read_form s \<and> int64_decimal (segments s ! (length (segments s) - 1))"
    then have "nonempty_segments s = segments s"
      by (simp add: documented_read_form_def Let_def nonempty_segments_all)
    then show "parseResourceNameRead s =
          (if length (segments s) = 4 then segments s ! 0 else [],
           Some \<lparr>Hash = segments s ! (length (segments s) - 2),
                 SizeBytes = decimal_value (segments s ! (length (segments s) - 1))\<rparr>)"
      using h by (simp add: parseResourceNameRead_eq documented_read_form_def Let_def)
  qed
  have D: "documented_write_form s \<and> int64_decimal (segments s ! (length (segments s) - 1)) \<longrightarrow>
        parseResourceNameWrite s =
          (if length (segments s) = 6 then segments s ! 0 else [],
           Some \<lparr>Hash = segments s ! (length (segments s) - 2),
                 SizeBytes = decimal_value (segments s ! (length (segments s) - 1))\<rparr>)"
  proof
    assume h: "documented_write_form s \<and> int64_decimal (segments s ! (length (segments s) - 1))"
    then have "nonempty_segments s = segments s"
      by (simp add: documented_write_form_def Let_def nonempty_segments_all)
    then show "parseResourceNameWrite s =
          (if length (segments s) = 6 then segments s ! 0 else [],
           Some \<lparr>Hash = segments s ! (length (segments s) - 2),
                 SizeBytes = decimal_value (segments s ! (length (segments s) - 1))\<rparr>)"
      using h by (simp add: parseResourceNameWrite_eq documented_write_form_def Let_def)
  qed
  have E: "snd (parseResourceNameRead (Read_ResourceName req)) = None \<and>
      ReadOffset req = 0 \<and> ReadLimit req = 0 \<longrightarrow>
        byteStreamServer_Read Get readChunkSize Send req w out =
          Some (Some (status_error InvalidArgument ''Invalid resource naming scheme'' []), w, out)"
    by (cases "parseResourceNameRead (Read_ResourceName req)")
       (simp add: byteStreamServer_Read_def)
  have F: "pending st = request # rest \<and> snd (parseResourceNameWrite (ResourceName request)) = None \<longrightarrow>
        byteStreamServer_Write Put st w' =
          (Some (status_error InvalidArgument ''Invalid resource naming scheme'' []), w')"
    by (cases "parseResourceNameWrite (ResourceName request)")
       (simp add: byteStreamServer_Write_def stream_Recv_def)
  from parseResourceNameRead_eq[of s] parseResourceNameWrite_eq[of s] C D E F
  show ?thesis by (intro conjI)
qed

lemmas parse_eval = nonempty_segments_def segments_def int64_decimal_def decimal_integer_def
  decimal_value_def sign_split_def is_digit_def digits_value_def documented_read_form_def
  documented_write_form_def

theorem parseResourceName_accepts_exactly_witness:
  "parseResourceNameRead ''blobs/abc/5'' = ([], Some \<lparr>Hash = ''abc'', SizeBytes = 5\<rparr>)
   \<and> parseResourceNameRead ''my-inst/blobs/abc/5'' = (''my-inst'', Some \<lparr>Hash = ''abc'', SizeBytes = 5\<rparr>)
   \<and> parseResourceNameRead ''Blobs/abc/5'' = ([], None)
   \<and> parseResourceNameRead ''blobs/ABC/5'' = ([], Some \<lparr>Hash = ''ABC'', SizeBytes = 5\<rparr>)
   \<and> parseResourceNameWrite ''my-inst/uploads/u1/blobs/abc/-5''
       = (''my-inst'', Some \<lparr>Hash = ''abc'', SizeBytes = - 5\<rparr>)
   \<and> byteStreamServer_Read example_Get 4 (\<lambda>d out. (None, out @ [d]))
        \<lparr>Read_ResourceName = ''Blobs/abc/5'', ReadOffset = 0, ReadLimit = 0\<rparr> example_store0 []
       = Some (Some (status_error InvalidArgument ''Invalid resource naming scheme'' []),
               example_store0, [])
   \<and> byteStreamServer_Write (\<lambda>i d n r w. (None, w))
        \<lparr>pending = [\<lparr>ResourceName = ''uploads/blobs/abc/5'', WriteOffset = 0, FinishWrite = True,
                      Data = [1, 2, 3]\<rparr>], closing = io_EOF\<rparr> example_store0
       = (Some (status_error InvalidArgument ''Invalid resource naming scheme'' []), example_store0)"
proof -
  note T = parseResourceName_accepts_exactly
  have A: "parseResourceNameRead ''blobs/abc/5'' = ([], Some \<lparr>Hash = ''abc'', SizeBytes = 5\<rparr>)"
    using T[where s = "''blobs/abc/5''", THEN conjunct2, THEN conjunct2, THEN conjunct1]
    by (simp add: parse_eval)
  have B: "parseResourceNameRead ''my-inst/blobs/abc/5'' =
      (''my-inst'', Some \<lparr>Hash = ''abc'', SizeBytes = 5\<rparr>)"
    using T[where s = "''my-inst/blobs/abc/5''", THEN conjunct2, THEN conjunct2, THEN conjunct1]
    by (simp add: parse_eval)
  have C: "parseResourceNameRead ''Blobs/abc/5'' = ([], None)"
    using T[where s = "''Blobs/abc/5''", THEN conjunct1]
    by (simp add: parse_eval)
  have D: "parseResourceNameRead ''blobs/ABC/5'' = ([], Some \<lparr>Hash = ''ABC'', SizeBytes = 5\<rparr>)"
    using T[where s = "''blobs/ABC/5''", THEN conjunct1]
    by (simp add: parse_eval)
  have E: "parseResourceNameWrite ''my-inst/uploads/u1/blobs/abc/-5''
       = (''my-inst'', Some \<lparr>Hash = ''abc'', SizeBytes = - 5\<rparr>)"
    using T[where s = "''my-inst/uploads/u1/blobs/abc/-5''", THEN conjunct2, THEN conjunct2,
        THEN conjunct2, THEN conjunct1]
    by (simp add: parse_eval)
  have F: "byteStreamServer_Read example_Get 4 (\<lambda>d out. (None, out @ [d]))
        \<lparr>Read_ResourceName = ''Blobs/abc/5'', ReadOffset = 0, ReadLimit = 0\<rparr> example_store0 []
       = Some (Some (status_error InvalidArgument ''Invalid resource naming scheme'' []),
               example_store0, [])"
    using T[where req = "\<lparr>Read_ResourceName = ''Blobs/abc/5'', ReadOffset = 0, ReadLimit = 0\<rparr>"
        and Get = example_Get and readChunkSize = 4 and Send = "\<lambda>d out. (None, out @ [d])"
        and w = example_store0 and out = "[]",
        THEN conjunct2, THEN conjunct2, THEN conjunct2, THEN conjunct2, THEN conjunct1] C
    by simp
  have G: "byteStreamServer_Write (\<lambda>i d n r w. (None, w))
        \<lparr>pending = [\<lparr>ResourceName = ''uploads/blobs/abc/5'', WriteOffset = 0, FinishWrite = True,
                      Data = [1, 2, 3]\<rparr>], closing = io_EOF\<rparr> example_store0
       = (Some (status_error InvalidArgument ''Invalid resource naming scheme'' []), example_store0)"
  proof -
    have rej: "parseResourceNameWrite ''uploads/blobs/abc/5'' = ([], None)"
      using T[where s = "''uploads/blobs/abc/5''", THEN conjunct2, THEN conjunct1]
      by (simp add: parse_eval)
    show ?thesis
      by (rule T[where rest = "[]" and request = "\<lparr>ResourceName = ''uploads/blobs/abc/5'',
            WriteOffset = 0, FinishWrite = True, Data = [1, 2, 3]\<rparr>", THEN conjunct2, THEN conjunct2, THEN conjunct2, THEN conjunct2,
            THEN conjunct2, THEN mp])
         (simp add: rej)
  qed
  from A B C D E F G show ?thesis by (intro conjI)
qed

section \<open>The write stream\<close>

lemma all_data_Cons: "all_data (q # qs) = Data q @ all_data qs"
  by (simp add: all_data_def)

lemma all_data_Nil: "all_data [] = []"
  by (simp add: all_data_def)




lemma offsets_follow_running_total:
  "offsets_follow wo qs \<longleftrightarrow>
     (\<forall>i<length qs. WriteOffset (qs ! i) = wo + int (length (all_data (take i qs))))"
proof (induction qs arbitrary: wo)
  case Nil
  then show ?case by simp
next
  case (Cons q qs)
  have "(\<forall>i<length (q # qs). WriteOffset ((q # qs) ! i) = wo + int (length (all_data (take i (q # qs)))))
      \<longleftrightarrow> WriteOffset q = wo \<and>
          (\<forall>i<length qs. WriteOffset (qs ! i) = wo + int (length (Data q)) + int (length (all_data (take i qs))))"
    by (auto simp: less_Suc_eq_0_disj all_data_Cons all_data_Nil)
  then show ?case using Cons.IH[of "wo + int (length (Data q))"] by simp
qed





lemma erased_name_fields:
  assumes "q\<lparr>ResourceName := []\<rparr> = q'\<lparr>ResourceName := []\<rparr>"
  shows "WriteOffset q = WriteOffset q'" and "Data q = Data q'" and "FinishWrite q = FinishWrite q'"
proof -
  from assms have "WriteOffset (q\<lparr>ResourceName := []\<rparr>) = WriteOffset (q'\<lparr>ResourceName := []\<rparr>)"
    by simp
  then show "WriteOffset q = WriteOffset q'" by simp
  from assms have "Data (q\<lparr>ResourceName := []\<rparr>) = Data (q'\<lparr>ResourceName := []\<rparr>)"
    by simp
  then show "Data q = Data q'" by simp
  from assms have "FinishWrite (q\<lparr>ResourceName := []\<rparr>) = FinishWrite (q'\<lparr>ResourceName := []\<rparr>)"
    by simp
  then show "FinishWrite q = FinishWrite q'" by simp
qed

lemma Read_loop_same_visible:
  assumes "same_visible r1 r2"
  shows "fst (byteStreamWriteServerReader_Read_loop r1 plen n) =
           fst (byteStreamWriteServerReader_Read_loop r2 plen n) \<and>
         same_visible (snd (byteStreamWriteServerReader_Read_loop r1 plen n))
                      (snd (byteStreamWriteServerReader_Read_loop r2 plen n))"
  using assms
proof (induction "pending (stream r1)" arbitrary: r1 r2 plen n)
  case Nil
  then have p2: "pending (stream r2) = []" by (simp add: same_visible_def)
  show ?case
    using Nil p2
    by (subst (1 2 3 4) byteStreamWriteServerReader_Read_loop.simps)
       (auto simp: Let_def stream_Recv_def same_visible_def)
next
  case (Cons q qs)
  from Cons.prems Cons.hyps(2) obtain q' qs' where
    p2: "pending (stream r2) = q' # qs'" and
    qq: "q\<lparr>ResourceName := []\<rparr> = q'\<lparr>ResourceName := []\<rparr>" and
    rest: "map (\<lambda>x. x\<lparr>ResourceName := []\<rparr>) qs = map (\<lambda>x. x\<lparr>ResourceName := []\<rparr>) qs'"
    by (cases "pending (stream r2)") (auto simp: same_visible_def)
  note f = erased_name_fields[OF qq]
  have same: "writeOffset r1 = writeOffset r2" "data r1 = data r2"
    "closing (stream r1) = closing (stream r2)"
    using Cons.prems by (simp_all add: same_visible_def)
  let ?c = "min plen (length (data r1))"
  show ?case
  proof (cases "plen - ?c = 0")
    case True
    then show ?thesis
      using Cons.prems same
      by (subst (1 2 3 4) byteStreamWriteServerReader_Read_loop.simps)
         (auto simp: Let_def same_visible_def)
  next
    case False
    show ?thesis
    proof (cases "WriteOffset q \<noteq> writeOffset r1")
      case True
      then show ?thesis
        using False same f p2 Cons.hyps(2)[symmetric] rest
        by (subst (1 2 3 4) byteStreamWriteServerReader_Read_loop.simps)
           (auto simp: Let_def stream_Recv_def same_visible_def)
    next
      case ok: False
      let ?a = "r1\<lparr>data := drop ?c (data r1)\<rparr>\<lparr>stream := (stream r1)\<lparr>pending := qs\<rparr>,
                  writeOffset := writeOffset r1 + int (length (Data q)), data := Data q\<rparr>"
      let ?b = "r2\<lparr>data := drop ?c (data r2)\<rparr>\<lparr>stream := (stream r2)\<lparr>pending := qs'\<rparr>,
                  writeOffset := writeOffset r2 + int (length (Data q')), data := Data q'\<rparr>"
      have s1: "byteStreamWriteServerReader_Read_loop r1 plen n =
                byteStreamWriteServerReader_Read_loop ?a (plen - ?c) (n @ take ?c (data r1))"
        using False ok Cons.hyps(2)[symmetric]
        by (subst byteStreamWriteServerReader_Read_loop.simps)
           (simp add: Let_def stream_Recv_def)
      have s2: "byteStreamWriteServerReader_Read_loop r2 plen n =
                byteStreamWriteServerReader_Read_loop ?b (plen - ?c) (n @ take ?c (data r1))"
        using False ok p2 same f
        by (subst byteStreamWriteServerReader_Read_loop.simps)
           (simp add: Let_def stream_Recv_def)
      have sv: "same_visible ?a ?b"
        using same f rest by (simp add: same_visible_def)
      have "qs = pending (stream ?a)" by simp
      from Cons.hyps(1)[OF this sv, of "plen - ?c" "n @ take ?c (data r1)"]
      show ?thesis unfolding s1 s2 .
    qed
  qed
qed

lemma Reads_same_visible:
  "same_visible r1 r2 \<Longrightarrow>
   byteStreamWriteServerReader_Reads r1 ps = byteStreamWriteServerReader_Reads r2 ps"
proof (induction ps arbitrary: r1 r2)
  case Nil
  then show ?case by simp
next
  case (Cons p ps)
  from Read_loop_same_visible[OF Cons.prems, of p "[]"]
  have "fst (byteStreamWriteServerReader_Read r1 p) = fst (byteStreamWriteServerReader_Read r2 p)"
    and "same_visible (snd (byteStreamWriteServerReader_Read r1 p))
                      (snd (byteStreamWriteServerReader_Read r2 p))"
    by (simp_all add: byteStreamWriteServerReader_Read_def)
  then show ?case
    using Cons.IH by (simp add: split_beta)
qed

lemma ReadAll_same_visible:
  "same_visible r1 r2 \<Longrightarrow> fst (ioutil_ReadAll r1) = fst (ioutil_ReadAll r2)"
proof (induction r1 arbitrary: r2 rule: ioutil_ReadAll.induct)
  case (1 r)
  from Read_loop_same_visible[OF "1.prems", of 512 "[]"]
  have eq: "fst (byteStreamWriteServerReader_Read r 512) = fst (byteStreamWriteServerReader_Read r2 512)"
    and sv: "same_visible (snd (byteStreamWriteServerReader_Read r 512))
                          (snd (byteStreamWriteServerReader_Read r2 512))"
    by (simp_all add: byteStreamWriteServerReader_Read_def)
  show ?case
  proof (cases "snd (fst (byteStreamWriteServerReader_Read r 512)) = None")
    case True
    from "1.IH"[OF refl True sv]
    have "fst (ioutil_ReadAll (snd (byteStreamWriteServerReader_Read r 512))) =
          fst (ioutil_ReadAll (snd (byteStreamWriteServerReader_Read r2 512)))" .
    then show ?thesis
      using True eq
      by (subst (1 2) ioutil_ReadAll.simps) (simp add: Let_def)
  next
    case False
    then have n2: "snd (fst (byteStreamWriteServerReader_Read r2 512)) \<noteq> None"
      using eq by simp
    have a: "fst (ioutil_ReadAll r) =
        (fst (fst (byteStreamWriteServerReader_Read r 512)),
         if snd (fst (byteStreamWriteServerReader_Read r 512)) = Some io_EOF then None
         else snd (fst (byteStreamWriteServerReader_Read r 512)))"
      using False by (subst ioutil_ReadAll.simps) (simp only: Let_def if_False fst_conv)
    have b: "fst (ioutil_ReadAll r2) =
        (fst (fst (byteStreamWriteServerReader_Read r2 512)),
         if snd (fst (byteStreamWriteServerReader_Read r2 512)) = Some io_EOF then None
         else snd (fst (byteStreamWriteServerReader_Read r2 512)))"
      using n2 by (subst ioutil_ReadAll.simps) (simp only: Let_def if_False fst_conv)
    show ?thesis unfolding a b eq ..
  qed
qed

lemma Write_redis_Put_same:
  assumes "fst (ioutil_ReadAll r1) = fst (ioutil_ReadAll r2)"
  shows "Write_redis_Put blobKeyer ctx_Err instance digest sizeBytes r1 c =
         Write_redis_Put blobKeyer ctx_Err instance digest sizeBytes r2 c"
proof -
  obtain v e a where a: "ioutil_ReadAll r1 = ((v, e), a)" by (cases "ioutil_ReadAll r1") auto
  with assms obtain b where b: "ioutil_ReadAll r2 = ((v, e), b)" by (cases "ioutil_ReadAll r2") auto
  show ?thesis
    by (simp add: Write_redis_Put_def redisBlobAccess_Put_def a b Let_def
             split: option.splits sum.splits prod.splits)
qed

text \<open>
  Claim C10. Two write streams that differ only in the \<^verbatim>\<open>write_offset\<close> of the first
  request and in the \<^verbatim>\<open>resource_name\<close> of the requests after the first have the same
  outcome: \<^verbatim>\<open>Write\<close> returns the same error and leaves the same state, for every back end
  whose \<^verbatim>\<open>Put\<close> is a function of what successive reads of its reader return, and for the
  Redis store of the sources. (What \<^verbatim>\<open>Write\<close> does depend on is the \<^verbatim>\<open>resource_name\<close> of the
  first request, the data of every request, the first included, the \<^verbatim>\<open>write_offset\<close> of
  the later ones, and the way the stream ends.)
\<close>

theorem Write_ignores_later_names_and_first_offset:
  assumes "erase_ignored st1 = erase_ignored st2"
  shows "byteStreamServer_Write
           (\<lambda>instance digest sizeBytes r.
              Put instance digest sizeBytes (byteStreamWriteServerReader_Reads r)) st1 w =
         byteStreamServer_Write
           (\<lambda>instance digest sizeBytes r.
              Put instance digest sizeBytes (byteStreamWriteServerReader_Reads r)) st2 w
       \<and> byteStreamServer_Write (Write_redis_Put blobKeyer ctx_Err) st1 c =
         byteStreamServer_Write (Write_redis_Put blobKeyer ctx_Err) st2 c"
proof -
  from assms have "closing (erase_ignored st1) = closing (erase_ignored st2)" by simp
  then have cl: "closing st1 = closing st2" by (simp add: erase_ignored_def)
  from assms have "pending (erase_ignored st1) = pending (erase_ignored st2)" by simp
  then have pe: "(case pending st1 of [] \<Rightarrow> []
                  | q # qs \<Rightarrow> q\<lparr>WriteOffset := 0\<rparr> # map (\<lambda>x. x\<lparr>ResourceName := []\<rparr>) qs) =
                 (case pending st2 of [] \<Rightarrow> []
                  | q # qs \<Rightarrow> q\<lparr>WriteOffset := 0\<rparr> # map (\<lambda>x. x\<lparr>ResourceName := []\<rparr>) qs)"
    by (simp add: erase_ignored_def)
  show ?thesis
  proof (cases "pending st1")
    case Nil
    then have "pending st2 = []" using pe by (cases "pending st2") simp_all
    then show ?thesis using Nil cl by (simp add: byteStreamServer_Write_def stream_Recv_def)
  next
    case (Cons q1 qs1)
    then obtain q2 qs2 where p2: "pending st2 = q2 # qs2"
      and q: "q1\<lparr>WriteOffset := 0\<rparr> = q2\<lparr>WriteOffset := 0\<rparr>"
      and qs: "map (\<lambda>x. x\<lparr>ResourceName := []\<rparr>) qs1 = map (\<lambda>x. x\<lparr>ResourceName := []\<rparr>) qs2"
      using pe by (cases "pending st2") simp_all
    from q have "ResourceName (q1\<lparr>WriteOffset := 0\<rparr>) = ResourceName (q2\<lparr>WriteOffset := 0\<rparr>)"
      and "Data (q1\<lparr>WriteOffset := 0\<rparr>) = Data (q2\<lparr>WriteOffset := 0\<rparr>)" by simp_all
    then have nm: "ResourceName q1 = ResourceName q2" and dt: "Data q1 = Data q2" by simp_all
    let ?r1 = "\<lparr>stream = st1\<lparr>pending := qs1\<rparr>, writeOffset = int (length (Data q1)), data = Data q1\<rparr>"
    let ?r2 = "\<lparr>stream = st2\<lparr>pending := qs2\<rparr>, writeOffset = int (length (Data q2)), data = Data q2\<rparr>"
    have sv: "same_visible ?r1 ?r2"
      using cl dt qs by (simp add: same_visible_def)
    have rd: "byteStreamWriteServerReader_Reads ?r1 = byteStreamWriteServerReader_Reads ?r2"
      by (rule ext) (rule Reads_same_visible[OF sv])
    have ra: "Write_redis_Put blobKeyer ctx_Err i d n ?r1 c = Write_redis_Put blobKeyer ctx_Err i d n ?r2 c"
      for i d n
      by (rule Write_redis_Put_same[OF ReadAll_same_visible[OF sv]])
    show ?thesis
      using Cons p2 nm rd ra
      by (simp add: byteStreamServer_Write_def stream_Recv_def split: prod.splits option.splits)
  qed
qed

theorem Write_ignores_later_names_and_first_offset_witness:
  "example_stream1 \<noteq> example_stream2
   \<and> byteStreamServer_Write (Write_redis_Put example_blobKeyer None) example_stream1 example_redis =
     byteStreamServer_Write (Write_redis_Put example_blobKeyer None) example_stream2 example_redis
   \<and> byteStreamServer_Write (Write_redis_Put example_blobKeyer None) example_stream2 example_redis =
     (None, example_redis\<lparr>db := (db example_redis)(''06'' \<mapsto> [1, 2, 3]),
                          executed := [[SET ''06'' [1, 2, 3]]]\<rparr>)"
proof -
  have e: "erase_ignored example_stream1 = erase_ignored example_stream2"
    by (simp add: erase_ignored_def example_stream1_def example_stream2_def)
  have A: "example_stream1 \<noteq> example_stream2"
    by (simp add: example_stream1_def example_stream2_def)
  have B: "byteStreamServer_Write (Write_redis_Put example_blobKeyer None) example_stream1 example_redis =
     byteStreamServer_Write (Write_redis_Put example_blobKeyer None) example_stream2 example_redis"
    by (rule Write_ignores_later_names_and_first_offset[OF e, THEN conjunct2])
  have C: "byteStreamServer_Write (Write_redis_Put example_blobKeyer None) example_stream2 example_redis =
     (None, example_redis\<lparr>db := (db example_redis)(''06'' \<mapsto> [1, 2, 3]),
                          executed := [[SET ''06'' [1, 2, 3]]]\<rparr>)"
    by (simp add: byteStreamServer_Write_def stream_Recv_def example_stream2_def
        parseResourceNameWrite_def FieldsFunc_def ParseInt_def ParseUint_def
        Write_redis_Put_def redisBlobAccess_Put_def ioutil_ReadAll.simps
        byteStreamWriteServerReader_Read_def byteStreamWriteServerReader_Read_loop.simps
        byteStreamWriteServerReader_Close_def example_blobKeyer_def redis_Set_def
        example_redis_def Let_def)
  from A B C show ?thesis by (intro conjI)
qed

end
